theory Spec2Isabelle
  imports Main
begin

section \<open>The shared store\<close>

text \<open>
  The limiter keeps its counters in a Redis server. A counter record is an integer value
  with an optional absolute deadline in milliseconds. The two Lua scripts of
  \<^verbatim>\<open>fastapi_limiter/__init__.py\<close> run on the server; a script sees one clock value
  \<open>now\<close> for all its commands, which is what makes one execution a single step.

  The commands the scripts call are modelled with the semantics Redis documents:
  a key whose deadline has passed reads as absent, \<^verbatim>\<open>INCR\<close> and \<^verbatim>\<open>DECR\<close> keep the
  deadline, \<^verbatim>\<open>SET key v PX ms\<close> replaces value and deadline and rejects a
  non-positive \<open>ms\<close> (\<^verbatim>\<open>ERR invalid expire time in 'set' command\<close>), and
  \<^verbatim>\<open>PTTL\<close> answers \<open>-2\<close> for an absent key, \<open>-1\<close> for a key without deadline and the
  remaining milliseconds otherwise. Numbers are unbounded integers: the 64-bit range of
  the server and the doubles of Lua are not modelled.
\<close>

type_synonym key = string

record entry =
  val :: int
  expire_at :: "int option"

type_synonym kv = "key \<rightharpoonup> entry"

datatype error =
    NoScriptError
  | ConnectionError
  | ResponseError
  | DataError
  | NotInitialised
  | TooManyRequests int

definition expired :: "int \<Rightarrow> entry \<Rightarrow> bool" where
  "expired now e = (case expire_at e of None \<Rightarrow> False | Some d \<Rightarrow> d < now)"

definition lookup :: "int \<Rightarrow> kv \<Rightarrow> key \<Rightarrow> entry option" where
  "lookup now s k =
     (case s k of None \<Rightarrow> None | Some e \<Rightarrow> if expired now e then None else Some e)"

text \<open>\<^verbatim>\<open>tonumber(redis.call('get', key) or "0")\<close>\<close>

definition current_count :: "int \<Rightarrow> kv \<Rightarrow> key \<Rightarrow> int" where
  "current_count now s k = (case lookup now s k of None \<Rightarrow> 0 | Some e \<Rightarrow> val e)"

definition redis_incr :: "int \<Rightarrow> key \<Rightarrow> kv \<Rightarrow> kv" where
  "redis_incr now k s =
     (case lookup now s k of
        None \<Rightarrow> s(k \<mapsto> \<lparr>val = 1, expire_at = None\<rparr>)
      | Some e \<Rightarrow> s(k \<mapsto> e\<lparr>val := val e + 1\<rparr>))"

definition redis_decr :: "int \<Rightarrow> key \<Rightarrow> kv \<Rightarrow> kv" where
  "redis_decr now k s =
     (case lookup now s k of
        None \<Rightarrow> s(k \<mapsto> \<lparr>val = - 1, expire_at = None\<rparr>)
      | Some e \<Rightarrow> s(k \<mapsto> e\<lparr>val := val e - 1\<rparr>))"

definition redis_set_px :: "int \<Rightarrow> key \<Rightarrow> int \<Rightarrow> int \<Rightarrow> kv \<Rightarrow> error + kv" where
  "redis_set_px now k v px s =
     (if px \<le> 0 then Inl ResponseError
      else Inr (s(k \<mapsto> \<lparr>val = v, expire_at = Some (now + px)\<rparr>)))"

definition redis_pttl :: "int \<Rightarrow> key \<Rightarrow> kv \<Rightarrow> int" where
  "redis_pttl now k s =
     (case lookup now s k of
        None \<Rightarrow> - 2
      | Some e \<Rightarrow> (case expire_at e of None \<Rightarrow> - 1 | Some d \<Rightarrow> d - now))"

section \<open>The two scripts\<close>

text \<open>
  \<^verbatim>\<open>FastAPILimiter.lua_script\<close>: the counter script, \<open>checkAndCharge\<close> in the
  specification. It returns the script's reply and the store it leaves; an error of a
  command aborts the script before anything was written.
\<close>

definition lua_script :: "int \<Rightarrow> kv \<Rightarrow> key \<Rightarrow> int \<Rightarrow> int \<Rightarrow> error + (int \<times> kv)" where
  "lua_script now s k limit expire_time =
     (let current = current_count now s k in
      if current > 0 then
        if current + 1 > limit then Inr (redis_pttl now k s, s)
        else Inr (0, redis_incr now k s)
      else
        (case redis_set_px now k 1 expire_time s of
           Inl e \<Rightarrow> Inl e
         | Inr s' \<Rightarrow> Inr (0, s')))"

text \<open>\<^verbatim>\<open>_refund_script\<close>: the refund script.\<close>

definition refund_script :: "int \<Rightarrow> kv \<Rightarrow> key \<Rightarrow> int \<times> kv" where
  "refund_script now s k =
     (let current = current_count now s k in
      (current, if current > 0 then redis_decr now k s else s))"

text \<open>A run of the counter script on one key at the given instants, in order.\<close>

fun run_checks :: "kv \<Rightarrow> key \<Rightarrow> int \<Rightarrow> int \<Rightarrow> int list \<Rightarrow> (error + int) list" where
  "run_checks s k limit w [] = []"
| "run_checks s k limit w (t # ts) =
     (case lua_script t s k limit w of
        Inl e \<Rightarrow> Inl e # run_checks s k limit w ts
      | Inr (r, s') \<Rightarrow> Inr r # run_checks s' k limit w ts)"


section \<open>The store client\<close>

text \<open>
  The process talks to the server through \<^verbatim>\<open>script_load\<close> and \<^verbatim>\<open>evalsha\<close>. A script
  handle is the content hash of a script, so a handle is represented by the script it
  names. Every round trip is appended to \<open>sent\<close>, and the environment decides each one
  through the next element of \<open>net\<close>: \<open>Ok\<close>, \<open>Down\<close> (the command does not reach the
  server and the client raises a connection error) or \<open>Flush\<close> (the server lost its
  script cache just before the command arrived). An exhausted \<open>net\<close> means \<open>Ok\<close>.
\<close>

datatype script = CounterScript | RefundScript

type_synonym sha = script

datatype command = EvalSha sha key "int list" | ScriptLoad script

datatype event = Ok | Down | Flush

record world =
  store :: kv
  script_cache :: "script list"
  lua_sha :: "sha option"
  refund_script_sha :: "sha option"
  sent :: "command list"
  net :: "event list"

fun next_event :: "event list \<Rightarrow> event \<times> event list" where
  "next_event [] = (Ok, [])"
| "next_event (e # es) = (e, es)"

definition round_trip :: "command \<Rightarrow> world \<Rightarrow> event \<times> world" where
  "round_trip c w =
     (let (e, es) = next_event (net w) in
      (e, w\<lparr>script_cache := (if e = Flush then [] else script_cache w),
            sent := sent w @ [c], net := es\<rparr>))"

definition script_load :: "script \<Rightarrow> world \<Rightarrow> (error + sha) \<times> world" where
  "script_load sc w =
     (let (e, w1) = round_trip (ScriptLoad sc) w in
      if e = Down then (Inl ConnectionError, w1)
      else (Inr sc, w1\<lparr>script_cache := sc # script_cache w1\<rparr>))"

definition run_script :: "int \<Rightarrow> script \<Rightarrow> key \<Rightarrow> int list \<Rightarrow> kv \<Rightarrow> error + (int \<times> kv)" where
  "run_script now sc k argv s =
     (case sc of
        CounterScript \<Rightarrow>
          (case argv of
             [limit, expire_time] \<Rightarrow> lua_script now s k limit expire_time
           | _ \<Rightarrow> Inl ResponseError)
      | RefundScript \<Rightarrow> Inr (refund_script now s k))"

definition evalsha :: "int \<Rightarrow> sha \<Rightarrow> key \<Rightarrow> int list \<Rightarrow> world \<Rightarrow> (error + int) \<times> world" where
  "evalsha now sha k argv w =
     (let (e, w1) = round_trip (EvalSha sha k argv) w in
      if e = Down then (Inl ConnectionError, w1)
      else if \<not> List.member (script_cache w1) sha then (Inl NoScriptError, w1)
      else
        (case run_script now sha k argv (store w1) of
           Inl err \<Rightarrow> (Inl err, w1)
         | Inr (r, s') \<Rightarrow> (Inr r, w1\<lparr>store := s'\<rparr>)))"

section \<open>Requests, configuration and limiters\<close>

text \<open>
  \<open>query_params\<close> and \<open>headers\<close> stand for the framework's lookups
  \<^verbatim>\<open>request.query_params.get\<close> and \<^verbatim>\<open>request.headers.get\<close>; \<open>scope_path\<close> is
  \<^verbatim>\<open>request.scope["path"]\<close>, the concrete path of the request, and \<open>http_method\<close> is
  \<^verbatim>\<open>request.method\<close>. A websocket is read through
  the same fields.
\<close>

record request =
  scope_path :: string
  http_method :: string
  query_params :: "string \<rightharpoonup> string"
  headers :: "string \<rightharpoonup> string"
  client_host :: string

text \<open>
  The class attributes of \<^verbatim>\<open>FastAPILimiter\<close> after \<^verbatim>\<open>init\<close>. \<open>redis\<close> tells whether
  the store handle is set.
\<close>

record config =
  redis :: bool
  prefix :: string
  global_identifier :: "request \<Rightarrow> string"
  http_callback :: "request \<Rightarrow> int \<Rightarrow> error + unit"
  ws_callback :: "request \<Rightarrow> int \<Rightarrow> error + unit"
  authorized_passwords :: "string list"
  query_param_names :: "string list"
  bearer_token_headers :: "string list"
  api_key_headers :: "string list"

text \<open>
  A limiter object. \<open>obj_id\<close> is the identity of the object (what \<^verbatim>\<open>is\<close> compares) and
  \<open>class_name\<close> its \<^verbatim>\<open>__class__.__name__\<close>; \<open>times_n\<close> is the attribute
  \<^verbatim>\<open>times\<close> and \<open>identifier_l\<close> the attribute \<^verbatim>\<open>identifier\<close>.
\<close>

record limiter =
  obj_id :: nat
  class_name :: string
  times_n :: int
  milliseconds :: int
  identifier_l :: "(request \<Rightarrow> string) option"
  callback :: "(request \<Rightarrow> int \<Rightarrow> error + unit) option"
  enable_bypass :: bool

record route =
  route_path :: string
  methods :: "string list"
  dependencies :: "limiter list"

definition default_identifier :: "request \<Rightarrow> string" where
  "default_identifier req =
     (let ip =
        (case headers req ''X-Forwarded-For'' of
           None \<Rightarrow> client_host req
         | Some forwarded \<Rightarrow>
             if forwarded \<noteq> [] then takeWhile (\<lambda>c. c \<noteq> CHR '','') forwarded
             else client_host req)
      in ip @ '':'' @ scope_path req)"

text \<open>\<^verbatim>\<open>ceil(pexpire / 1000)\<close>\<close>

definition ceil_seconds :: "int \<Rightarrow> int" where
  "ceil_seconds pexpire = - ((- pexpire) div 1000)"

definition http_default_callback :: "request \<Rightarrow> int \<Rightarrow> error + unit" where
  "http_default_callback req pexpire = Inl (TooManyRequests (ceil_seconds pexpire))"

definition ws_default_callback :: "request \<Rightarrow> int \<Rightarrow> error + unit" where
  "ws_default_callback ws pexpire = Inl (TooManyRequests (ceil_seconds pexpire))"

text \<open>
  \<^verbatim>\<open>FastAPILimiter.init\<close>. The hash \<open>H\<close> is \<^verbatim>\<open>hashlib.sha256(...).hexdigest()\<close>, a
  parameter of the model. The authorized passwords are stored hashed.
\<close>

definition init ::
  "(string \<Rightarrow> string) \<Rightarrow> string \<Rightarrow> (request \<Rightarrow> string) \<Rightarrow> string list \<Rightarrow> string list \<Rightarrow>
     string list \<Rightarrow> string list \<Rightarrow> config" where
  "init H pre ident passwords params bearers api_keys =
     \<lparr>redis = True, prefix = pre, global_identifier = ident,
      http_callback = http_default_callback, ws_callback = ws_default_callback,
      authorized_passwords = map H passwords, query_param_names = params,
      bearer_token_headers = bearers, api_key_headers = api_keys\<rparr>"

text \<open>\<^verbatim>\<open>RateLimiter.__init__\<close>\<close>

definition RateLimiter_init ::
  "nat \<Rightarrow> string \<Rightarrow> int \<Rightarrow> int \<Rightarrow> int \<Rightarrow> int \<Rightarrow> int \<Rightarrow> (request \<Rightarrow> string) option \<Rightarrow>
     (request \<Rightarrow> int \<Rightarrow> error + unit) option \<Rightarrow> bool \<Rightarrow> limiter" where
  "RateLimiter_init oid cls n ms secs mins hours ident cb byp =
     \<lparr>obj_id = oid, class_name = cls, times_n = n,
      milliseconds = ms + 1000 * secs + 60000 * mins + 3600000 * hours,
      identifier_l = ident, callback = cb, enable_bypass = byp\<rparr>"

section \<open>Bypass\<close>

definition get_or_empty :: "(string \<rightharpoonup> string) \<Rightarrow> string \<Rightarrow> string" where
  "get_or_empty m name = (case m name of None \<Rightarrow> [] | Some v \<Rightarrow> v)"

text \<open>The inner loop over \<^verbatim>\<open>FastAPILimiter.authorized_passwords\<close>.\<close>

definition matches_password :: "config \<Rightarrow> string \<Rightarrow> bool" where
  "matches_password cfg hashed_value =
     list_ex (\<lambda>password. hashed_value = password) (authorized_passwords cfg)"

text \<open>
  The three loops of \<^verbatim>\<open>RateLimiter.__call__\<close> under \<^verbatim>\<open>if self.enable_bypass\<close>: \<open>True\<close>
  when one of them returns. The bearer loop reads the header named \<^verbatim>\<open>header + " "\<close>.
\<close>

definition bypass :: "(string \<Rightarrow> string) \<Rightarrow> config \<Rightarrow> request \<Rightarrow> bool" where
  "bypass H cfg req =
     (list_ex (\<lambda>param. matches_password cfg (H (get_or_empty (query_params req) param)))
        (query_param_names cfg)
      \<or> list_ex (\<lambda>header. matches_password cfg (H (get_or_empty (headers req) (header @ '' ''))))
        (bearer_token_headers cfg)
      \<or> list_ex (\<lambda>header. matches_password cfg (H (get_or_empty (headers req) header)))
        (api_key_headers cfg))"

section \<open>Scope keys\<close>

text \<open>Python's \<^verbatim>\<open>str\<close> of a non-negative integer.\<close>

definition digit_char :: "nat \<Rightarrow> char" where
  "digit_char d = ''0123456789'' ! d"

function str_nat :: "nat \<Rightarrow> string" where
  "str_nat n = (if n < 10 then [digit_char n] else str_nat (n div 10) @ [digit_char (n mod 10)])"
  by pat_completeness auto
termination
  by (relation "measure (\<lambda>n. n)") auto

declare str_nat.simps [simp del]

definition scope_key :: "string \<Rightarrow> string \<Rightarrow> nat \<Rightarrow> nat \<Rightarrow> key" where
  "scope_key pre rate_key route_index dep_index =
     pre @ '':'' @ rate_key @ '':'' @ str_nat route_index @ '':'' @ str_nat dep_index"

definition ws_scope_key :: "string \<Rightarrow> string \<Rightarrow> string \<Rightarrow> key" where
  "ws_scope_key pre rate_key context_key = pre @ '':ws:'' @ rate_key @ '':'' @ context_key"

definition route_matches :: "request \<Rightarrow> route \<Rightarrow> bool" where
  "route_matches req r = (route_path r = scope_path req \<and> List.member (methods r) (http_method req))"

text \<open>The inner loop of the charge path: the first position holding this very object.\<close>

fun find_dependency :: "limiter \<Rightarrow> limiter list \<Rightarrow> nat \<Rightarrow> nat option" where
  "find_dependency self [] j = None"
| "find_dependency self (d # ds) j =
     (if obj_id self = obj_id d then Some j else find_dependency self ds (Suc j))"

text \<open>
  The outer loop of the charge path. It has no \<^verbatim>\<open>break\<close>: every matching route
  overwrites \<open>route_index\<close>, and \<open>dep_index\<close> keeps its value where the object is not found.
\<close>

fun scan_routes :: "request \<Rightarrow> limiter \<Rightarrow> route list \<Rightarrow> nat \<Rightarrow> nat \<times> nat \<Rightarrow> nat \<times> nat" where
  "scan_routes req self [] i acc = acc"
| "scan_routes req self (r # rs) i (route_index, dep_index) =
     (if route_matches req r then
        scan_routes req self rs (Suc i)
          (i, case find_dependency self (dependencies r) 0 of None \<Rightarrow> dep_index | Some j \<Rightarrow> j)
      else scan_routes req self rs (Suc i) (route_index, dep_index))"

definition charge_key :: "config \<Rightarrow> route list \<Rightarrow> limiter \<Rightarrow> request \<Rightarrow> key" where
  "charge_key cfg routes self req =
     (let (route_index, dep_index) = scan_routes req self routes 0 (0, 0);
          ident = (case identifier_l self of None \<Rightarrow> global_identifier cfg | Some f \<Rightarrow> f);
          rate_key = ident req
      in scope_key (prefix cfg) rate_key route_index dep_index)"

section \<open>The limiters\<close>

text \<open>\<^verbatim>\<open>RateLimiter._check\<close>\<close>

definition RateLimiter_check :: "limiter \<Rightarrow> int \<Rightarrow> key \<Rightarrow> world \<Rightarrow> (error + int) \<times> world" where
  "RateLimiter_check self now k w =
     (case lua_sha w of
        None \<Rightarrow> (Inl DataError, w)
      | Some sha \<Rightarrow> evalsha now sha k [times_n self, milliseconds self] w)"

text \<open>\<^verbatim>\<open>if pexpire != 0: return await callback(...)\<close>\<close>

definition on_result ::
  "(request \<Rightarrow> int \<Rightarrow> error + unit) \<Rightarrow> request \<Rightarrow> int \<Rightarrow> error + unit" where
  "on_result cb req pexpire = (if pexpire \<noteq> 0 then cb req pexpire else Inr ())"

text \<open>\<^verbatim>\<open>RateLimiter.__call__\<close>\<close>

definition RateLimiter_call ::
  "(string \<Rightarrow> string) \<Rightarrow> int \<Rightarrow> config \<Rightarrow> route list \<Rightarrow> limiter \<Rightarrow> request \<Rightarrow> world \<Rightarrow>
     (error + unit) \<times> world" where
  "RateLimiter_call H now cfg routes self req w =
     (if enable_bypass self \<and> bypass H cfg req then (Inr (), w)
      else if \<not> redis cfg then (Inl NotInitialised, w)
      else
        (let cb = (case callback self of None \<Rightarrow> http_callback cfg | Some c \<Rightarrow> c);
             k = charge_key cfg routes self req
         in case RateLimiter_check self now k w of
              (Inl NoScriptError, w1) \<Rightarrow>
                (case script_load CounterScript w1 of
                   (Inl e, w2) \<Rightarrow> (Inl e, w2)
                 | (Inr sha, w2) \<Rightarrow>
                     (case RateLimiter_check self now k (w2\<lparr>lua_sha := Some sha\<rparr>) of
                        (Inl e, w3) \<Rightarrow> (Inl e, w3)
                      | (Inr pexpire, w3) \<Rightarrow> (on_result cb req pexpire, w3)))
            | (Inl e, w1) \<Rightarrow> (Inl e, w1)
            | (Inr pexpire, w1) \<Rightarrow> (on_result cb req pexpire, w1)))"

text \<open>\<^verbatim>\<open>WebSocketRateLimiter.__call__\<close>\<close>

definition WebSocketRateLimiter_call ::
  "int \<Rightarrow> config \<Rightarrow> limiter \<Rightarrow> request \<Rightarrow> string \<Rightarrow> world \<Rightarrow> (error + unit) \<times> world" where
  "WebSocketRateLimiter_call now cfg self ws context_key w =
     (if \<not> redis cfg then (Inl NotInitialised, w)
      else
        (let ident = (case identifier_l self of None \<Rightarrow> global_identifier cfg | Some f \<Rightarrow> f);
             rate_key = ident ws;
             k = ws_scope_key (prefix cfg) rate_key context_key;
             cb = (case callback self of None \<Rightarrow> ws_callback cfg | Some c \<Rightarrow> c)
         in case RateLimiter_check self now k w of
              (Inl e, w1) \<Rightarrow> (Inl e, w1)
            | (Inr pexpire, w1) \<Rightarrow> (on_result cb ws pexpire, w1)))"

section \<open>The refund path\<close>

text \<open>
  Lines 66 to 76 of \<^verbatim>\<open>refund_rate_limit_for_request\<close>, for one dependency: load the
  refund script when no handle is cached, run it, and after any exception of that run
  load the script again and run it once more.
\<close>

definition refund_key :: "int \<Rightarrow> key \<Rightarrow> world \<Rightarrow> (error + unit) \<times> world" where
  "refund_key now k w =
     (case (case refund_script_sha w of
              None \<Rightarrow>
                (case script_load RefundScript w of
                   (Inl e, w1) \<Rightarrow> (Inl e, w1)
                 | (Inr sha, w1) \<Rightarrow> (Inr sha, w1\<lparr>refund_script_sha := Some sha\<rparr>))
            | Some sha \<Rightarrow> (Inr sha, w)) of
        (Inl e, w1) \<Rightarrow> (Inl e, w1)
      | (Inr sha, w1) \<Rightarrow>
          (case evalsha now sha k [] w1 of
             (Inr r, w2) \<Rightarrow> (Inr (), w2)
           | (Inl e, w2) \<Rightarrow>
               (case script_load RefundScript w2 of
                  (Inl e', w3) \<Rightarrow> (Inl e', w3)
                | (Inr sha', w3) \<Rightarrow>
                    (case evalsha now sha' k [] (w3\<lparr>refund_script_sha := Some sha'\<rparr>) of
                       (Inl e', w4) \<Rightarrow> (Inl e', w4)
                     | (Inr r, w4) \<Rightarrow> (Inr (), w4)))))"

text \<open>The loop over the dependencies of the matched route.\<close>

fun refund_dependencies ::
  "int \<Rightarrow> config \<Rightarrow> request \<Rightarrow> nat \<Rightarrow> limiter list \<Rightarrow> nat \<Rightarrow> world \<Rightarrow> (error + unit) \<times> world" where
  "refund_dependencies now cfg req route_index [] j w = (Inr (), w)"
| "refund_dependencies now cfg req route_index (d # ds) j w =
     (if class_name d = ''RateLimiter'' then
        (case refund_key now
                (scope_key (prefix cfg) (global_identifier cfg req) route_index j) w of
           (Inl e, w1) \<Rightarrow> (Inl e, w1)
         | (Inr u, w1) \<Rightarrow> refund_dependencies now cfg req route_index ds (Suc j) w1)
      else refund_dependencies now cfg req route_index ds (Suc j) w)"

text \<open>The loop over the routes: the first matching route is handled, then \<^verbatim>\<open>break\<close>.\<close>

fun refund_routes ::
  "int \<Rightarrow> config \<Rightarrow> request \<Rightarrow> route list \<Rightarrow> nat \<Rightarrow> world \<Rightarrow> (error + unit) \<times> world" where
  "refund_routes now cfg req [] i w = (Inr (), w)"
| "refund_routes now cfg req (r # rs) i w =
     (if route_matches req r then refund_dependencies now cfg req i (dependencies r) 0 w
      else refund_routes now cfg req rs (Suc i) w)"

definition refund_rate_limit_for_request ::
  "int \<Rightarrow> config \<Rightarrow> route list \<Rightarrow> request \<Rightarrow> world \<Rightarrow> (error + unit) \<times> world" where
  "refund_rate_limit_for_request now cfg routes req w =
     (if \<not> redis cfg then (Inr (), w) else refund_routes now cfg req routes 0 w)"

section \<open>Sequences of store operations\<close>

text \<open>
  The operations the process runs on a key: the counter script with a limit and a window,
  or the refund script. A script that fails leaves the store as it was.
\<close>
datatype op = Check int int | Refund

fun exec_op :: "int \<Rightarrow> key \<Rightarrow> op \<Rightarrow> kv \<Rightarrow> (error + int) \<times> kv" where
  "exec_op t k (Check limit w) s =
     (case lua_script t s k limit w of Inl e \<Rightarrow> (Inl e, s) | Inr (r, s') \<Rightarrow> (Inr r, s'))"
| "exec_op t k Refund s = (case refund_script t s k of (r, s') \<Rightarrow> (Inr r, s'))"

fun run_ops :: "key \<Rightarrow> (int \<times> op) list \<Rightarrow> kv \<Rightarrow> (error + int) list \<times> kv" where
  "run_ops k [] s = ([], s)"
| "run_ops k ((t, x) # xs) s =
     (case exec_op t k x s of
        (r, s') \<Rightarrow> (case run_ops k xs s' of (rs, s'') \<Rightarrow> (r # rs, s'')))"

definition stored_count :: "kv \<Rightarrow> key \<Rightarrow> int" where
  "stored_count s k = (case s k of None \<Rightarrow> 0 | Some e \<Rightarrow> val e)"

text \<open>
  Two stores are alike at a key when they hold the same record there, or when both read
  as count 0 there (absent, expired or a stored 0).
\<close>

definition alike :: "int \<Rightarrow> key \<Rightarrow> kv \<Rightarrow> kv \<Rightarrow> bool" where
  "alike t k s1 s2 =
     (s1 k = s2 k \<or> (current_count t s1 k = 0 \<and> current_count t s2 k = 0))"

section \<open>Observing a call\<close>

text \<open>
  \<open>event_at es n\<close> is what the environment does to round trip \<open>n\<close> of a call that starts
  with the schedule \<open>es\<close>. A script is missing for a call when the cache does not hold it
  or is flushed before the first command arrives. \<open>http_cb\<close> and \<open>ws_ident\<close> name the
  choices \<^verbatim>\<open>self.callback or FastAPILimiter.http_callback\<close> and
  \<^verbatim>\<open>self.identifier or FastAPILimiter.identifier\<close>.
\<close>

definition event_at :: "event list \<Rightarrow> nat \<Rightarrow> event" where
  "event_at es n = (if n < length es then es ! n else Ok)"

definition script_missing :: "script \<Rightarrow> world \<Rightarrow> bool" where
  "script_missing sc w = (event_at (net w) 0 = Flush \<or> \<not> List.member (script_cache w) sc)"

definition http_cb :: "config \<Rightarrow> limiter \<Rightarrow> request \<Rightarrow> int \<Rightarrow> error + unit" where
  "http_cb cfg self = (case callback self of None \<Rightarrow> http_callback cfg | Some c \<Rightarrow> c)"

definition ws_ident :: "config \<Rightarrow> limiter \<Rightarrow> request \<Rightarrow> string" where
  "ws_ident cfg self = (case identifier_l self of None \<Rightarrow> global_identifier cfg | Some f \<Rightarrow> f)"

section \<open>Example inputs\<close>

text \<open>
  \<open>demo_hash\<close> is a stand-in for the hash in the examples; \<open>w0\<close> is the world right
  after \<^verbatim>\<open>init\<close>, with the counter script loaded and no counter stored.
\<close>

definition s_two :: kv where
  "s_two = Map.empty(''k'' \<mapsto> \<lparr>val = 2, expire_at = Some 5000\<rparr>)"

definition ops_refunds :: "(int \<times> op) list" where
  "ops_refunds = [(10, Refund), (20, Refund), (30, Refund), (40, Check 0 5000)]"

definition ops_checks :: "(int \<times> op) list" where
  "ops_checks = [(10, Check 1 1000), (20, Check 1 1000), (30, Refund)]"

definition s_zero :: kv where
  "s_zero = Map.empty(''k'' \<mapsto> \<lparr>val = 0, expire_at = Some 5000\<rparr>)"

definition demo_hash :: "string \<Rightarrow> string" where
  "demo_hash s = CHR ''#'' # s"

definition w0 :: world where
  "w0 = \<lparr>store = Map.empty, script_cache = [CounterScript], lua_sha = Some CounterScript,
         refund_script_sha = None, sent = [], net = []\<rparr>"

definition cfg_bearer :: "(string \<Rightarrow> string) \<Rightarrow> config" where
  "cfg_bearer H =
     init H ''fastapi-limiter'' default_identifier [''secret''] [''password''] [''bearer'']
       [''Api-Key'']"

definition req_bearer :: request where
  "req_bearer = \<lparr>scope_path = ''/'', http_method = ''GET'', query_params = Map.empty,
     headers = Map.empty(''bearer'' \<mapsto> ''secret''), client_host = ''1.2.3.4''\<rparr>"

definition lim_bypass :: limiter where
  "lim_bypass = RateLimiter_init 1 ''RateLimiter'' 2 0 5 0 0 None None True"

definition routes_root :: "route list" where
  "routes_root = [\<lparr>route_path = ''/'', methods = [''GET''], dependencies = [lim_bypass]\<rparr>]"

definition cfg_plain :: config where
  "cfg_plain = init demo_hash ''fastapi-limiter'' default_identifier [] [] [] []"

definition ident_user :: "request \<Rightarrow> string" where
  "ident_user req = ''user42''"

definition lim_user :: limiter where
  "lim_user = RateLimiter_init 1 ''RateLimiter'' 2 0 5 0 0 (Some ident_user) None False"

definition routes_a :: "route list" where
  "routes_a = [\<lparr>route_path = ''/a'', methods = [''GET''], dependencies = [lim_user]\<rparr>]"

definition req_a :: request where
  "req_a = \<lparr>scope_path = ''/a'', http_method = ''GET'', query_params = Map.empty,
     headers = Map.empty, client_host = ''1.2.3.4''\<rparr>"

definition lim_burst :: limiter where
  "lim_burst = RateLimiter_init 1 ''RateLimiter'' 5 0 5 0 0 None None False"

definition lim_sustained :: limiter where
  "lim_sustained = RateLimiter_init 2 ''RateLimiter'' 1 0 15 0 0 None None False"

definition routes_items :: "route list" where
  "routes_items =
     [\<lparr>route_path = ''/items/{id}'', methods = [''GET''],
       dependencies = [lim_burst, lim_sustained]\<rparr>]"

definition req_item :: request where
  "req_item = \<lparr>scope_path = ''/items/5'', http_method = ''GET'', query_params = Map.empty,
     headers = Map.empty, client_host = ''1.2.3.4''\<rparr>"

definition w_flushed :: world where
  "w_flushed = w0\<lparr>net := [Flush]\<rparr>"

definition w_refund_down :: world where
  "w_refund_down =
     w0\<lparr>script_cache := [CounterScript, RefundScript],
        refund_script_sha := Some RefundScript, net := [Down]\<rparr>"

definition lim_ws :: limiter where
  "lim_ws = RateLimiter_init 3 ''WebSocketRateLimiter'' 1 0 5 0 0 None None True"

definition cfg_secret :: config where
  "cfg_secret =
     init demo_hash ''fastapi-limiter'' default_identifier [''secret''] [''password'']
       [''bearer''] [''Api-Key'']"

definition req_ws :: request where
  "req_ws = \<lparr>scope_path = ''/ws'', http_method = ''GET'',
     query_params = Map.empty(''password'' \<mapsto> ''secret''),
     headers = Map.empty(''Api-Key'' \<mapsto> ''secret''), client_host = ''1.2.3.4''\<rparr>"

section \<open>Facts about the store and the counter script\<close>


lemma lookup_upd_same:
  "lookup now (s(k \<mapsto> e)) k = (if expired now e then None else Some e)"
  by (simp add: lookup_def)

lemma lookup_upd_other:
  "k' \<noteq> k \<Longrightarrow> lookup now (s(k \<mapsto> e)) k' = lookup now s k'"
  by (simp add: lookup_def)

lemma lua_script_fresh:
  assumes "0 < w" and "current_count now s k = 0"
  shows "lua_script now s k limit w = Inr (0, s(k \<mapsto> \<lparr>val = 1, expire_at = Some (now + w)\<rparr>))"
  using assms by (simp add: lua_script_def redis_set_px_def)

lemma lua_script_incr:
  assumes "lookup now s k = Some e" and "0 < val e" and "val e + 1 \<le> limit"
  shows "lua_script now s k limit w = Inr (0, s(k \<mapsto> e\<lparr>val := val e + 1\<rparr>))"
  using assms by (simp add: lua_script_def current_count_def redis_incr_def)

lemma lua_script_deny:
  assumes "lookup now s k = Some e" and "0 < val e" and "limit < val e + 1"
  shows "lua_script now s k limit w = Inr (redis_pttl now k s, s)"
  using assms by (simp add: lua_script_def current_count_def)

lemma run_checks_admits:
  assumes "s k = Some \<lparr>val = c, expire_at = Some d\<rparr>" and "0 < c" and "c \<le> limit"
    and "\<forall>t \<in> set ts. t \<le> d" and "\<forall>t \<in> set us. t \<le> d" and "length ts = nat (limit - c)"
  shows "run_checks s k limit w (ts @ us) =
           replicate (nat (limit - c)) (Inr 0) @
           run_checks (s(k \<mapsto> \<lparr>val = limit, expire_at = Some d\<rparr>)) k limit w us"
  using assms
proof (induction ts arbitrary: s c)
  case Nil
  then have "c = limit" by simp
  with Nil have "s(k \<mapsto> \<lparr>val = limit, expire_at = Some d\<rparr>) = s" by (auto simp: fun_upd_idem)
  then show ?case using Nil by simp
next
  case (Cons t ts)
  let ?e = "\<lparr>val = c, expire_at = Some d\<rparr>"
  from Cons.prems have lt: "c < limit" by auto
  from Cons.prems have live: "lookup t s k = Some ?e" by (simp add: lookup_def expired_def)
  have step: "lua_script t s k limit w = Inr (0, s(k \<mapsto> \<lparr>val = c + 1, expire_at = Some d\<rparr>))"
    using lua_script_incr [OF live, of limit w] Cons.prems lt by simp
  have rest: "run_checks (s(k \<mapsto> \<lparr>val = c + 1, expire_at = Some d\<rparr>)) k limit w (ts @ us) =
      replicate (nat (limit - (c + 1))) (Inr 0) @
      run_checks ((s(k \<mapsto> \<lparr>val = c + 1, expire_at = Some d\<rparr>))(k \<mapsto> \<lparr>val = limit, expire_at = Some d\<rparr>)) k limit w us"
    by (rule Cons.IH) (use Cons.prems lt in auto)
  have n: "nat (limit - c) = Suc (nat (limit - (c + 1)))" using lt by simp
  have "run_checks s k limit w ((t # ts) @ us) =
      Inr 0 # run_checks (s(k \<mapsto> \<lparr>val = c + 1, expire_at = Some d\<rparr>)) k limit w (ts @ us)"
    by (simp add: step)
  also have "\<dots> = Inr 0 # replicate (nat (limit - (c + 1))) (Inr 0) @
      run_checks (s(k \<mapsto> \<lparr>val = limit, expire_at = Some d\<rparr>)) k limit w us"
    by (simp only: rest fun_upd_upd append_Cons)
  finally show ?case by (simp only: n replicate_Suc append_Cons)
qed


section \<open>The claims about the scripts\<close>

text \<open>
  Claim C1. For a quota with limit \<open>L \<ge> 1\<close> and window \<open>W > 0\<close> and a counter that
  is absent when the first call arrives at \<open>t0\<close>: of \<open>L + 1\<close> sequential calls of the
  counter script on one scope key, all inside the window \<open>[t0, t0 + W)\<close>, the first \<open>L\<close>
  return 0 and call \<open>L + 1\<close> returns a value \<open>r\<close> with \<open>0 < r \<le> W\<close>.
\<close>

theorem C1_window_admits_limit_then_denies:
  assumes L: "1 \<le> limit" and W: "0 < w" and absent: "lookup t0 s k = None"
    and len: "length ts = nat limit - 1"
    and win: "\<forall>t \<in> set (ts @ [t']). t0 \<le> t \<and> t < t0 + w"
  shows "\<exists>r. run_checks s k limit w (t0 # ts @ [t']) = replicate (nat limit) (Inr 0) @ [Inr r]
            \<and> 0 < r \<and> r \<le> w"
proof -
  let ?d = "t0 + w"
  let ?s1 = "s(k \<mapsto> \<lparr>val = 1, expire_at = Some ?d\<rparr>)"
  let ?sL = "?s1(k \<mapsto> \<lparr>val = limit, expire_at = Some ?d\<rparr>)"
  have c0: "current_count t0 s k = 0" using absent by (simp add: current_count_def)
  have first: "lua_script t0 s k limit w = Inr (0, ?s1)"
    using lua_script_fresh [OF W c0] by simp
  have mid: "run_checks ?s1 k limit w (ts @ [t']) =
      replicate (nat (limit - 1)) (Inr 0) @ run_checks ?sL k limit w [t']"
    by (rule run_checks_admits) (use L len win in auto)
  have live: "lookup t' ?sL k = Some \<lparr>val = limit, expire_at = Some ?d\<rparr>"
    using win by (simp add: lookup_def expired_def)
  have deny: "lua_script t' ?sL k limit w = Inr (redis_pttl t' k ?sL, ?sL)"
    using lua_script_deny [OF live, of limit w] L by simp
  have pttl: "redis_pttl t' k ?sL = ?d - t'"
    using live by (simp add: redis_pttl_def)
  have n: "nat limit = Suc (nat (limit - 1))" using L by simp
  have "run_checks s k limit w (t0 # ts @ [t']) = replicate (nat limit) (Inr 0) @ [Inr (?d - t')]"
    using first mid deny pttl n by (simp add: replicate_append_same)
  moreover have "0 < ?d - t'" "?d - t' \<le> w" using win by auto
  ultimately show ?thesis by blast
qed


theorem C1_window_admits_limit_then_denies_witness:
  "(1::int) \<le> 2 \<and> (0::int) < 5000 \<and> lookup 0 Map.empty ''a'' = None \<and>
   (\<exists>r. run_checks Map.empty ''a'' 2 5000 [0, 100, 900] = [Inr 0, Inr 0, Inr r] \<and>
        0 < r \<and> r \<le> 5000)"
  using C1_window_admits_limit_then_denies [of 2 5000 0 Map.empty "''a''" "[100]" 900]
  by (simp add: lookup_def numeral_2_eq_2)

text \<open>
  Claim C2, as the specification states it, for every window. It fails for a window of 0
  milliseconds, which the quota of the specification allows and which is the default of
  \<^verbatim>\<open>RateLimiter\<close>: the first call on an absent counter is answered with an error of the
  store and no record is written.
\<close>

theorem C2_zero_window_counterexample:
  "lua_script 0 Map.empty ''k'' 1 0 = Inl ResponseError"
  by (simp add: lua_script_def current_count_def lookup_def redis_set_px_def)

text \<open>
  Claim C2, amended to a window \<open>w > 0\<close>. One execution of the counter script on a key:
  a count that reads 0 (absent, expired or stored 0) is replaced by count 1 with the
  deadline \<open>now + w\<close> and the reply is 0; a positive count with \<open>count + 1 \<le> limit\<close>
  is raised by 1 with the deadline kept and the reply is 0; a positive count with
  \<open>count + 1 > limit\<close> gives the reply of \<^verbatim>\<open>PTTL\<close> and the store is left as it was. No
  other key changes.
\<close>

theorem C2_check_and_charge_transformation:
  assumes "0 < w"
  shows
    "(current_count now s k = 0 \<longrightarrow>
        lua_script now s k limit w =
          Inr (0, s(k \<mapsto> \<lparr>val = 1, expire_at = Some (now + w)\<rparr>)))
   \<and> (0 < current_count now s k \<and> current_count now s k + 1 \<le> limit \<longrightarrow>
        (\<exists>e. lookup now s k = Some e \<and>
             lua_script now s k limit w =
               Inr (0, s(k \<mapsto> \<lparr>val = val e + 1, expire_at = expire_at e\<rparr>))))
   \<and> (0 < current_count now s k \<and> limit < current_count now s k + 1 \<longrightarrow>
        lua_script now s k limit w = Inr (redis_pttl now k s, s))"
proof (intro conjI impI)
  assume "current_count now s k = 0"
  then show "lua_script now s k limit w =
      Inr (0, s(k \<mapsto> \<lparr>val = 1, expire_at = Some (now + w)\<rparr>))"
    using assms by (rule lua_script_fresh [rotated])
next
  assume a: "0 < current_count now s k \<and> current_count now s k + 1 \<le> limit"
  then obtain e where e: "lookup now s k = Some e"
    by (auto simp: current_count_def split: option.splits)
  then have v: "val e = current_count now s k" by (simp add: current_count_def)
  have "lua_script now s k limit w = Inr (0, s(k \<mapsto> e\<lparr>val := val e + 1\<rparr>))"
    using lua_script_incr [OF e] a v by simp
  moreover have "e\<lparr>val := val e + 1\<rparr> = \<lparr>val = val e + 1, expire_at = expire_at e\<rparr>"
    by simp
  ultimately show "\<exists>e. lookup now s k = Some e \<and>
      lua_script now s k limit w = Inr (0, s(k \<mapsto> \<lparr>val = val e + 1, expire_at = expire_at e\<rparr>))"
    using e by metis
next
  assume a: "0 < current_count now s k \<and> limit < current_count now s k + 1"
  then obtain e where e: "lookup now s k = Some e"
    by (auto simp: current_count_def split: option.splits)
  then have v: "val e = current_count now s k" by (simp add: current_count_def)
  show "lua_script now s k limit w = Inr (redis_pttl now k s, s)"
    using lua_script_deny [OF e] a v by simp
qed

theorem C2_check_and_charge_transformation_witness:
  "(0::int) < 5000
   \<and> current_count 10 Map.empty ''k'' = 0
   \<and> lua_script 10 Map.empty ''k'' 3 5000 =
        Inr (0, Map.empty(''k'' \<mapsto> \<lparr>val = 1, expire_at = Some 5010\<rparr>))
   \<and> current_count 10 s_two ''k'' = 2
   \<and> lua_script 10 s_two ''k'' 3 5000 =
        Inr (0, s_two(''k'' \<mapsto> \<lparr>val = 3, expire_at = Some 5000\<rparr>))
   \<and> lua_script 10 s_two ''k'' 2 5000 = Inr (4990, s_two)"
  using C2_check_and_charge_transformation [of 5000 10 Map.empty "''k''" 3]
    C2_check_and_charge_transformation [of 5000 10 s_two "''k''" 3]
    C2_check_and_charge_transformation [of 5000 10 s_two "''k''" 2]
  by (simp add: current_count_def lookup_def expired_def s_two_def redis_pttl_def)

text \<open>
  Claim C5. One execution of the refund script on a key returns the count it read; a
  positive count is lowered by 1 with the deadline kept; any other count leaves the store
  as it was; a count that was not negative is not negative afterwards, and a negative
  count after the script was there before it.
\<close>

theorem C5_refund_floor_at_zero:
  "fst (refund_script now s k) = current_count now s k
   \<and> (0 < current_count now s k \<longrightarrow>
        (\<exists>e. lookup now s k = Some e \<and>
             snd (refund_script now s k) =
               s(k \<mapsto> \<lparr>val = val e - 1, expire_at = expire_at e\<rparr>))
        \<and> current_count now (snd (refund_script now s k)) k = current_count now s k - 1)
   \<and> (current_count now s k \<le> 0 \<longrightarrow> snd (refund_script now s k) = s)
   \<and> (0 \<le> current_count now s k \<longrightarrow> 0 \<le> current_count now (snd (refund_script now s k)) k)
   \<and> (current_count now (snd (refund_script now s k)) k < 0 \<longrightarrow>
        snd (refund_script now s k) = s)"
proof -
  have r: "fst (refund_script now s k) = current_count now s k"
    by (simp add: refund_script_def Let_def)
  have neg: "current_count now s k \<le> 0 \<Longrightarrow> snd (refund_script now s k) = s"
    by (simp add: refund_script_def Let_def)
  have pos: "\<exists>e. lookup now s k = Some e \<and>
             snd (refund_script now s k) = s(k \<mapsto> \<lparr>val = val e - 1, expire_at = expire_at e\<rparr>)
             \<and> current_count now (snd (refund_script now s k)) k = current_count now s k - 1"
    if p: "0 < current_count now s k"
  proof -
    from p obtain e where e: "lookup now s k = Some e"
      by (auto simp: current_count_def split: option.splits)
    then have live: "\<not> expired now e" by (auto simp: lookup_def split: option.splits if_splits)
    have eq: "e\<lparr>val := val e - 1\<rparr> = \<lparr>val = val e - 1, expire_at = expire_at e\<rparr>" by simp
    have "snd (refund_script now s k) = s(k \<mapsto> e\<lparr>val := val e - 1\<rparr>)"
      using p e by (simp add: refund_script_def Let_def redis_decr_def)
    then have s': "snd (refund_script now s k) = s(k \<mapsto> \<lparr>val = val e - 1, expire_at = expire_at e\<rparr>)"
      by (simp only: eq)
    have "current_count now (snd (refund_script now s k)) k = val e - 1"
      using live by (simp add: s' current_count_def lookup_def expired_def)
    then show ?thesis using e s' by (simp add: current_count_def)
  qed
  have nonneg: "0 \<le> current_count now (snd (refund_script now s k)) k" if "0 \<le> current_count now s k"
  proof (cases "0 < current_count now s k")
    case True
    from pos [OF True] show ?thesis using True by auto
  next
    case False
    then show ?thesis using neg that by simp
  qed
  have keep: "snd (refund_script now s k) = s" if "current_count now (snd (refund_script now s k)) k < 0"
  proof (cases "0 < current_count now s k")
    case True
    from pos [OF True] that True show ?thesis by auto
  next
    case False
    then show ?thesis using neg by simp
  qed
  show ?thesis using r neg pos nonneg keep by blast
qed

theorem C5_refund_floor_at_zero_witness:
  "fst (refund_script 10 s_two ''k'') = 2
   \<and> snd (refund_script 10 s_two ''k'') = s_two(''k'' \<mapsto> \<lparr>val = 1, expire_at = Some 5000\<rparr>)
   \<and> current_count 10 (snd (refund_script 10 s_two ''k'')) ''k'' = 1
   \<and> fst (refund_script 10 Map.empty ''k'') = 0
   \<and> snd (refund_script 10 Map.empty ''k'') = Map.empty"
  using C5_refund_floor_at_zero [of 10 s_two "''k''"]
    C5_refund_floor_at_zero [of 10 Map.empty "''k''"]
  by (simp add: current_count_def lookup_def expired_def s_two_def)

text \<open>
  Claim C7, as the specification states it, for every call on a count that reads 0. It
  fails for a window of 0 milliseconds, whatever the limit: with limit 0 and window 0 the
  call on an absent counter is answered with an error of the store, it is not admitted and
  no count is written.
\<close>

theorem C7_zero_window_counterexample:
  "current_count 10 Map.empty ''k'' = 0
   \<and> lua_script 10 Map.empty ''k'' 0 0 = Inl ResponseError"
  by (simp add: lua_script_def current_count_def lookup_def redis_set_px_def)

text \<open>
  Claim C7, amended to a window \<open>w > 0\<close>. For every limit, the limit 0 included, the
  counter script on a key whose count reads 0 replies 0 and writes count 1 with the fresh
  deadline \<open>now + w\<close>; the branch does not look at the limit.
\<close>

theorem C7_first_call_admitted_for_any_limit:
  assumes "0 < w" and "current_count now s k = 0"
  shows "lua_script now s k limit w =
           Inr (0, s(k \<mapsto> \<lparr>val = 1, expire_at = Some (now + w)\<rparr>))
         \<and> lua_script now s k 0 w =
           Inr (0, s(k \<mapsto> \<lparr>val = 1, expire_at = Some (now + w)\<rparr>))
         \<and> current_count now (s(k \<mapsto> \<lparr>val = 1, expire_at = Some (now + w)\<rparr>)) k = 1"
  using assms
  by (simp add: lua_script_def redis_set_px_def current_count_def lookup_def expired_def)

theorem C7_first_call_admitted_for_any_limit_witness:
  "(0::int) < 5000 \<and> current_count 10 Map.empty ''k'' = 0
   \<and> lua_script 10 Map.empty ''k'' 0 5000 =
        Inr (0, Map.empty(''k'' \<mapsto> \<lparr>val = 1, expire_at = Some 5010\<rparr>))"
  using C7_first_call_admitted_for_any_limit [of 5000 10 Map.empty "''k''" 0]
  by (simp add: current_count_def lookup_def)

section \<open>The invariant of the counter record\<close>

lemma current_count_cases:
  "current_count t s k = 0 \<or> current_count t s k = stored_count s k"
  by (simp add: current_count_def lookup_def stored_count_def split: option.splits)

lemma current_count_nonneg:
  "0 \<le> stored_count s k \<Longrightarrow> 0 \<le> current_count t s k"
  using current_count_cases [of t s k] by auto

lemma exec_op_stored_nonneg:
  assumes "0 \<le> stored_count s k"
  shows "0 \<le> stored_count (snd (exec_op t k x s)) k"
proof (cases x)
  case (Check limit w)
  show ?thesis
  proof (cases "0 < current_count t s k")
    case True
    then obtain e where e: "lookup t s k = Some e"
      by (auto simp: current_count_def split: option.splits)
    with True have "0 < val e" by (simp add: current_count_def)
    then show ?thesis using Check True e assms
      by (simp add: lua_script_def redis_incr_def stored_count_def)
  next
    case False
    then show ?thesis using Check assms
      by (simp add: lua_script_def redis_set_px_def stored_count_def)
  qed
next
  case Refund
  show ?thesis
  proof (cases "0 < current_count t s k")
    case True
    then obtain e where e: "lookup t s k = Some e"
      by (auto simp: current_count_def split: option.splits)
    with True have "0 < val e" by (simp add: current_count_def)
    then show ?thesis using Refund True e
      by (simp add: refund_script_def redis_decr_def stored_count_def)
  next
    case False
    then show ?thesis using Refund assms by (simp add: refund_script_def)
  qed
qed

lemma run_ops_stored_nonneg:
  "0 \<le> stored_count s k \<Longrightarrow> 0 \<le> stored_count (snd (run_ops k xs s)) k"
proof (induction xs arbitrary: s)
  case Nil
  then show ?case by simp
next
  case (Cons a xs)
  obtain t x where a: "a = (t, x)" by (cases a)
  have "0 \<le> stored_count (snd (exec_op t k x s)) k"
    using Cons.prems by (rule exec_op_stored_nonneg)
  then have "0 \<le> stored_count (snd (run_ops k xs (snd (exec_op t k x s)))) k"
    by (rule Cons.IH)
  then show ?case by (simp add: a case_prod_unfold)
qed

lemma current_count_zero_mono:
  assumes "current_count t s k = 0" and "t \<le> t'"
  shows "current_count t' s k = 0"
  using assms
  by (auto simp: current_count_def lookup_def expired_def split: option.splits if_splits)

lemma alike_mono: "alike t k s1 s2 \<Longrightarrow> t \<le> t' \<Longrightarrow> alike t' k s1 s2"
  unfolding alike_def using current_count_zero_mono by blast

lemma exec_op_same_entry:
  assumes "s1 k = s2 k"
  shows "fst (exec_op t k x s1) = fst (exec_op t k x s2)
       \<and> snd (exec_op t k x s1) k = snd (exec_op t k x s2) k"
proof -
  have l: "lookup t s1 k = lookup t s2 k" using assms by (simp add: lookup_def)
  then have c: "current_count t s1 k = current_count t s2 k" by (simp add: current_count_def)
  have p: "redis_pttl t k s1 = redis_pttl t k s2" using l by (simp add: redis_pttl_def)
  show ?thesis
  proof (cases x)
    case (Check limit w)
    then show ?thesis using l c p assms
      by (simp add: lua_script_def redis_incr_def redis_set_px_def Let_def split: option.splits)
  next
    case Refund
    then show ?thesis using l c assms
      by (simp add: refund_script_def redis_decr_def Let_def split: option.splits)
  qed
qed

lemma exec_op_both_zero:
  assumes "current_count t s1 k = 0" and "current_count t s2 k = 0"
  shows "fst (exec_op t k x s1) = fst (exec_op t k x s2)
       \<and> alike t k (snd (exec_op t k x s1)) (snd (exec_op t k x s2))"
proof (cases x)
  case (Check limit w)
  then show ?thesis using assms
    by (simp add: lua_script_def redis_set_px_def alike_def)
next
  case Refund
  then show ?thesis using assms by (simp add: refund_script_def alike_def)
qed

lemma exec_op_alike:
  assumes "alike t k s1 s2"
  shows "fst (exec_op t k x s1) = fst (exec_op t k x s2)
       \<and> alike t k (snd (exec_op t k x s1)) (snd (exec_op t k x s2))"
  using assms exec_op_same_entry [of s1 k s2 t x] exec_op_both_zero [of t s1 k s2 x]
  unfolding alike_def by blast

lemma run_ops_alike:
  assumes "alike t0 k s1 s2" and "sorted (map fst xs)" and "\<forall>t \<in> set (map fst xs). t0 \<le> t"
  shows "fst (run_ops k xs s1) = fst (run_ops k xs s2)"
  using assms
proof (induction xs arbitrary: t0 s1 s2)
  case Nil
  then show ?case by simp
next
  case (Cons a xs)
  obtain t x where a: "a = (t, x)" by (cases a)
  have "alike t k s1 s2" using Cons.prems a alike_mono by auto
  then have st: "fst (exec_op t k x s1) = fst (exec_op t k x s2)"
    and al: "alike t k (snd (exec_op t k x s1)) (snd (exec_op t k x s2))"
    using exec_op_alike by blast+
  have "fst (run_ops k xs (snd (exec_op t k x s1))) = fst (run_ops k xs (snd (exec_op t k x s2)))"
    by (rule Cons.IH [OF al]) (use Cons.prems a in auto)
  then show ?case using st by (simp add: a case_prod_unfold)
qed

text \<open>
  Claim C8. A stored count that is not negative stays so under every sequence of counter
  and refund executions on the key, at whatever instants, and so does the count read at
  any instant. A record that is absent or expired behaves as a record holding 0: from
  the instant \<open>t0\<close> on, every sequence of operations at non-decreasing instants gets the
  same replies from both.
\<close>

theorem C8_count_never_negative:
  "(0 \<le> stored_count s k \<longrightarrow>
      0 \<le> stored_count (snd (run_ops k xs s)) k \<and>
      0 \<le> current_count t (snd (run_ops k xs s)) k)
   \<and> (lookup t0 s1 k = None \<and> s2 k = Some \<lparr>val = 0, expire_at = d\<rparr> \<and>
        sorted (map fst xs) \<and> (\<forall>t \<in> set (map fst xs). t0 \<le> t) \<longrightarrow>
        fst (run_ops k xs s1) = fst (run_ops k xs s2))"
proof (intro conjI impI)
  assume "0 \<le> stored_count s k"
  then show "0 \<le> stored_count (snd (run_ops k xs s)) k" by (rule run_ops_stored_nonneg)
  then show "0 \<le> current_count t (snd (run_ops k xs s)) k" by (rule current_count_nonneg)
next
  assume a: "lookup t0 s1 k = None \<and> s2 k = Some \<lparr>val = 0, expire_at = d\<rparr> \<and>
        sorted (map fst xs) \<and> (\<forall>t \<in> set (map fst xs). t0 \<le> t)"
  then have "alike t0 k s1 s2"
    by (simp add: alike_def current_count_def lookup_def)
  then show "fst (run_ops k xs s1) = fst (run_ops k xs s2)"
    using a by (intro run_ops_alike [of t0]) auto
qed

theorem C8_count_never_negative_witness:
  "0 \<le> stored_count s_two ''k''
   \<and> 0 \<le> stored_count (snd (run_ops ''k'' ops_refunds s_two)) ''k''
   \<and> 0 \<le> current_count 50 (snd (run_ops ''k'' ops_refunds s_two)) ''k''
   \<and> lookup 0 Map.empty ''k'' = None
   \<and> fst (run_ops ''k'' ops_checks Map.empty) = fst (run_ops ''k'' ops_checks s_zero)
   \<and> fst (run_ops ''k'' ops_checks s_zero) = [Inr 0, Inr 990, Inr 1]"
  using C8_count_never_negative [of s_two "''k''" ops_refunds 50]
    C8_count_never_negative [of s_two "''k''" ops_checks 50 0 Map.empty s_zero "Some 5000"]
  by (simp add: stored_count_def s_two_def s_zero_def lookup_def ops_checks_def
      refund_script_def lua_script_def current_count_def expired_def redis_decr_def
      redis_set_px_def redis_pttl_def redis_incr_def)

section \<open>Facts about the client\<close>

lemma event_at_tl: "event_at (tl es) n = event_at es (Suc n)"
  by (cases es) (simp_all add: event_at_def)

lemma round_trip_eq:
  "round_trip c w =
     (event_at (net w) 0,
      w\<lparr>script_cache := (if event_at (net w) 0 = Flush then [] else script_cache w),
        sent := sent w @ [c], net := tl (net w)\<rparr>)"
  by (cases "net w") (simp_all add: round_trip_def event_at_def)

lemma lua_script_error: "lua_script now s k limit ms = Inl e \<Longrightarrow> e = ResponseError"
  by (auto simp: lua_script_def redis_set_px_def Let_def split: if_splits)

lemma str_nat_0: "str_nat 0 = ''0''"
  by (subst str_nat.simps) (simp add: digit_char_def)

lemmas eval_defs =
  RateLimiter_call_def RateLimiter_check_def evalsha_def round_trip_def run_script_def
  script_load_def charge_key_def scope_key_def route_matches_def on_result_def
  lua_script_def refund_script_def current_count_def lookup_def expired_def
  redis_incr_def redis_decr_def redis_set_px_def redis_pttl_def
  bypass_def matches_password_def get_or_empty_def
  init_def RateLimiter_init_def default_identifier_def http_default_callback_def
  ceil_seconds_def str_nat_0 Let_def refund_rate_limit_for_request_def refund_key_def

lemmas http_defs =
  RateLimiter_call_def RateLimiter_check_def evalsha_def script_load_def round_trip_eq
  event_at_tl Let_def script_missing_def run_script_def

lemmas refund_defs =
  refund_key_def evalsha_def script_load_def round_trip_eq event_at_tl Let_def
  script_missing_def run_script_def

section \<open>Failures of the store\<close>

text \<open>The HTTP limiter, case by case over what happens to its round trips.\<close>

lemma http_down:
  assumes "redis cfg" and "\<not> (enable_bypass self \<and> bypass H cfg req)"
    and "lua_sha w = Some CounterScript" and "event_at (net w) 0 = Down"
  shows "fst (RateLimiter_call H now cfg routes self req w) = Inl ConnectionError
       \<and> sent (snd (RateLimiter_call H now cfg routes self req w)) =
           sent w @ [EvalSha CounterScript (charge_key cfg routes self req)
                       [times_n self, milliseconds self]]
       \<and> store (snd (RateLimiter_call H now cfg routes self req w)) = store w"
  using assms by (simp add: http_defs)

lemma http_first_runs_script:
  assumes "redis cfg" and "\<not> (enable_bypass self \<and> bypass H cfg req)"
    and "lua_sha w = Some CounterScript" and "event_at (net w) 0 \<noteq> Down"
    and "\<not> script_missing CounterScript w"
  shows "sent (snd (RateLimiter_call H now cfg routes self req w)) =
           sent w @ [EvalSha CounterScript (charge_key cfg routes self req)
                       [times_n self, milliseconds self]]
       \<and> (fst (RateLimiter_call H now cfg routes self req w),
           store (snd (RateLimiter_call H now cfg routes self req w))) =
          (case lua_script now (store w) (charge_key cfg routes self req)
                  (times_n self) (milliseconds self) of
             Inl err \<Rightarrow> (Inl err, store w)
           | Inr (r, s') \<Rightarrow> (on_result (http_cb cfg self) req r, s'))"
  using assms
  by (auto simp add: http_defs http_cb_def split: sum.splits prod.splits
      dest: lua_script_error)

lemma http_reload_down:
  assumes "redis cfg" and "\<not> (enable_bypass self \<and> bypass H cfg req)"
    and "lua_sha w = Some CounterScript" and "event_at (net w) 0 \<noteq> Down"
    and "script_missing CounterScript w" and "event_at (net w) 1 = Down"
  shows "fst (RateLimiter_call H now cfg routes self req w) = Inl ConnectionError
       \<and> sent (snd (RateLimiter_call H now cfg routes self req w)) =
           sent w @ [EvalSha CounterScript (charge_key cfg routes self req)
                       [times_n self, milliseconds self], ScriptLoad CounterScript]
       \<and> store (snd (RateLimiter_call H now cfg routes self req w)) = store w"
  using assms by (auto simp add: http_defs)

lemma http_retry_down:
  assumes "redis cfg" and "\<not> (enable_bypass self \<and> bypass H cfg req)"
    and "lua_sha w = Some CounterScript" and "event_at (net w) 0 \<noteq> Down"
    and "script_missing CounterScript w" and "event_at (net w) 1 \<noteq> Down"
    and "event_at (net w) 2 = Down"
  shows "fst (RateLimiter_call H now cfg routes self req w) = Inl ConnectionError
       \<and> sent (snd (RateLimiter_call H now cfg routes self req w)) =
           sent w @ [EvalSha CounterScript (charge_key cfg routes self req)
                       [times_n self, milliseconds self], ScriptLoad CounterScript,
                     EvalSha CounterScript (charge_key cfg routes self req)
                       [times_n self, milliseconds self]]
       \<and> store (snd (RateLimiter_call H now cfg routes self req w)) = store w"
  using assms by (auto simp add: http_defs numeral_2_eq_2)

lemma http_retry_not_found:
  assumes "redis cfg" and "\<not> (enable_bypass self \<and> bypass H cfg req)"
    and "lua_sha w = Some CounterScript" and "event_at (net w) 0 \<noteq> Down"
    and "script_missing CounterScript w" and "event_at (net w) 1 \<noteq> Down"
    and "event_at (net w) 2 = Flush"
  shows "fst (RateLimiter_call H now cfg routes self req w) = Inl NoScriptError
       \<and> sent (snd (RateLimiter_call H now cfg routes self req w)) =
           sent w @ [EvalSha CounterScript (charge_key cfg routes self req)
                       [times_n self, milliseconds self], ScriptLoad CounterScript,
                     EvalSha CounterScript (charge_key cfg routes self req)
                       [times_n self, milliseconds self]]
       \<and> store (snd (RateLimiter_call H now cfg routes self req w)) = store w"
  using assms by (auto simp add: http_defs numeral_2_eq_2)

lemma http_retry_runs_script:
  assumes "redis cfg" and "\<not> (enable_bypass self \<and> bypass H cfg req)"
    and "lua_sha w = Some CounterScript" and "event_at (net w) 0 \<noteq> Down"
    and "script_missing CounterScript w" and "event_at (net w) 1 \<noteq> Down"
    and "event_at (net w) 2 = Ok"
  shows "sent (snd (RateLimiter_call H now cfg routes self req w)) =
           sent w @ [EvalSha CounterScript (charge_key cfg routes self req)
                       [times_n self, milliseconds self], ScriptLoad CounterScript,
                     EvalSha CounterScript (charge_key cfg routes self req)
                       [times_n self, milliseconds self]]
       \<and> (fst (RateLimiter_call H now cfg routes self req w),
           store (snd (RateLimiter_call H now cfg routes self req w))) =
          (case lua_script now (store w) (charge_key cfg routes self req)
                  (times_n self) (milliseconds self) of
             Inl err \<Rightarrow> (Inl err, store w)
           | Inr (r, s') \<Rightarrow> (on_result (http_cb cfg self) req r, s'))"
  using assms
  by (auto simp add: http_defs http_cb_def numeral_2_eq_2 split: sum.splits prod.splits
      dest: lua_script_error)

text \<open>The refund of one key.\<close>

lemma refund_first_runs_script:
  assumes "refund_script_sha w = Some RefundScript"
    and "event_at (net w) 0 \<noteq> Down" and "\<not> script_missing RefundScript w"
  shows "fst (refund_key now k w) = Inr ()
       \<and> sent (snd (refund_key now k w)) = sent w @ [EvalSha RefundScript k []]
       \<and> store (snd (refund_key now k w)) = snd (refund_script now (store w) k)"
  using assms by (auto simp add: refund_defs split: prod.splits)

lemma refund_reload_down:
  assumes "refund_script_sha w = Some RefundScript"
    and "event_at (net w) 0 = Down \<or> script_missing RefundScript w"
    and "event_at (net w) 1 = Down"
  shows "fst (refund_key now k w) = Inl ConnectionError
       \<and> sent (snd (refund_key now k w)) =
           sent w @ [EvalSha RefundScript k [], ScriptLoad RefundScript]
       \<and> store (snd (refund_key now k w)) = store w"
  using assms by (auto simp add: refund_defs)

lemma refund_retry_down:
  assumes "refund_script_sha w = Some RefundScript"
    and "event_at (net w) 0 = Down \<or> script_missing RefundScript w"
    and "event_at (net w) 1 \<noteq> Down" and "event_at (net w) 2 = Down"
  shows "fst (refund_key now k w) = Inl ConnectionError
       \<and> sent (snd (refund_key now k w)) =
           sent w @ [EvalSha RefundScript k [], ScriptLoad RefundScript,
                     EvalSha RefundScript k []]
       \<and> store (snd (refund_key now k w)) = store w"
  using assms by (auto simp add: refund_defs numeral_2_eq_2)

lemma refund_retry_not_found:
  assumes "refund_script_sha w = Some RefundScript"
    and "event_at (net w) 0 = Down \<or> script_missing RefundScript w"
    and "event_at (net w) 1 \<noteq> Down" and "event_at (net w) 2 = Flush"
  shows "fst (refund_key now k w) = Inl NoScriptError
       \<and> sent (snd (refund_key now k w)) =
           sent w @ [EvalSha RefundScript k [], ScriptLoad RefundScript,
                     EvalSha RefundScript k []]
       \<and> store (snd (refund_key now k w)) = store w"
  using assms by (auto simp add: refund_defs numeral_2_eq_2)

lemma refund_retry_runs_script:
  assumes "refund_script_sha w = Some RefundScript"
    and "event_at (net w) 0 = Down \<or> script_missing RefundScript w"
    and "event_at (net w) 1 \<noteq> Down" and "event_at (net w) 2 = Ok"
  shows "fst (refund_key now k w) = Inr ()
       \<and> sent (snd (refund_key now k w)) =
           sent w @ [EvalSha RefundScript k [], ScriptLoad RefundScript,
                     EvalSha RefundScript k []]
       \<and> store (snd (refund_key now k w)) = snd (refund_script now (store w) k)"
  using assms by (auto simp add: refund_defs numeral_2_eq_2 split: prod.splits)

text \<open>The first refund of a process has no handle yet and loads the script first.\<close>

lemma refund_unloaded_down:
  assumes "refund_script_sha u = None" and "event_at (net u) 0 = Down"
  shows "fst (refund_key now k u) = Inl ConnectionError
       \<and> sent (snd (refund_key now k u)) = sent u @ [ScriptLoad RefundScript]
       \<and> store (snd (refund_key now k u)) = store u"
  using assms by (simp add: refund_key_def script_load_def round_trip_eq)

lemma refund_unloaded_loads:
  assumes "refund_script_sha u = None" and "event_at (net u) 0 \<noteq> Down"
  shows "refund_key now k u =
           refund_key now k
             ((snd (script_load RefundScript u))\<lparr>refund_script_sha := Some RefundScript\<rparr>)
       \<and> sent (snd (script_load RefundScript u)) = sent u @ [ScriptLoad RefundScript]"
  using assms by (simp add: refund_key_def script_load_def round_trip_eq)

text \<open>
  The websocket limiter has no handler around \<^verbatim>\<open>_check\<close>: a missing script ends the call
  after one command.
\<close>

lemma ws_no_retry:
  assumes "redis cfg" and "lua_sha w = Some CounterScript"
    and "event_at (net w) 0 \<noteq> Down" and "script_missing CounterScript w"
  shows "fst (WebSocketRateLimiter_call now cfg self ws ck w) = Inl NoScriptError
       \<and> length (sent (snd (WebSocketRateLimiter_call now cfg self ws ck w))) =
           Suc (length (sent w))
       \<and> store (snd (WebSocketRateLimiter_call now cfg self ws ck w)) = store w"
  using assms
  by (auto simp add: WebSocketRateLimiter_call_def RateLimiter_check_def evalsha_def
      round_trip_eq Let_def script_missing_def)

text \<open>
  Claim C6, as the specification states it for all three paths. On the websocket path a
  flushed script cache ends the call with the script-not-found error after a single
  command, where the HTTP path recovers; on the refund path a connection error of the
  first execution does not propagate: the script is loaded again, run again, and the call
  returns normally.
\<close>

theorem C6_every_path_counterexample:
  "fst (WebSocketRateLimiter_call 0 cfg_plain lim_ws req_ws ''hello'' w_flushed) = Inl NoScriptError
   \<and> sent (snd (WebSocketRateLimiter_call 0 cfg_plain lim_ws req_ws ''hello'' w_flushed)) =
       [EvalSha CounterScript ''fastapi-limiter:ws:1.2.3.4:/ws:hello'' [1, 5000]]
   \<and> fst (RateLimiter_call demo_hash 0 cfg_plain routes_a lim_user req_a w_flushed) = Inr ()
   \<and> fst (evalsha 0 RefundScript ''fastapi-limiter:1.2.3.4:/a:0:0'' [] w_refund_down) =
       Inl ConnectionError
   \<and> fst (refund_rate_limit_for_request 0 cfg_plain routes_a req_a w_refund_down) = Inr ()
   \<and> sent (snd (refund_rate_limit_for_request 0 cfg_plain routes_a req_a w_refund_down)) =
       [EvalSha RefundScript ''fastapi-limiter:1.2.3.4:/a:0:0'' [],
        ScriptLoad RefundScript,
        EvalSha RefundScript ''fastapi-limiter:1.2.3.4:/a:0:0'' []]"
  by (simp add: eval_defs WebSocketRateLimiter_call_def ws_scope_key_def cfg_plain_def
      routes_a_def lim_user_def lim_ws_def req_a_def req_ws_def w0_def w_flushed_def
      w_refund_down_def ident_user_def)

text \<open>
  Claim C6, amended to what the HTTP path and the refund path do. HTTP limiter: when the
  first \<^verbatim>\<open>evalsha\<close> finds the counter script missing, the script is loaded and the same
  command is sent exactly once more; a failure of the load or of the second command is
  the outcome of the call; a connection error or a script error of the first command is
  the outcome of the call with no further command; the call returns normally only on a
  reply of the script. Refund of a key: after any failure of the first execution the
  refund script is loaded and the same command is sent exactly once more; a failure of the
  load or of the second command is the outcome. A refund that has no handle yet loads the
  script first; a failure of that load is the outcome, and otherwise the refund goes on as
  with the handle.
\<close>

theorem C6_reload_and_retry_once:
  fixes w v u :: world and now :: int and routes :: "route list" and cfg :: config
    and self :: limiter and req :: request and H :: "string \<Rightarrow> string" and k :: key
  assumes "redis cfg" and "lua_sha w = Some CounterScript"
    and "\<not> (enable_bypass self \<and> bypass H cfg req)"
    and "refund_script_sha v = Some RefundScript"
  defines "res \<equiv> RateLimiter_call H now cfg routes self req w"
    and "cmd \<equiv> EvalSha CounterScript (charge_key cfg routes self req)
                  [times_n self, milliseconds self]"
    and "script_result \<equiv>
           (case lua_script now (store w) (charge_key cfg routes self req)
                   (times_n self) (milliseconds self) of
              Inl err \<Rightarrow> (Inl err, store w)
            | Inr (r, s') \<Rightarrow> (on_result (http_cb cfg self) req r, s'))"
    and "ref \<equiv> refund_key now k v"
    and "rcmd \<equiv> EvalSha RefundScript k []"
  shows
    "(event_at (net w) 0 = Down \<longrightarrow>
        fst res = Inl ConnectionError \<and> sent (snd res) = sent w @ [cmd] \<and>
        store (snd res) = store w)
   \<and> (event_at (net w) 0 \<noteq> Down \<and> \<not> script_missing CounterScript w \<longrightarrow>
        sent (snd res) = sent w @ [cmd] \<and> (fst res, store (snd res)) = script_result)
   \<and> (event_at (net w) 0 \<noteq> Down \<and> script_missing CounterScript w \<and>
       event_at (net w) 1 = Down \<longrightarrow>
        fst res = Inl ConnectionError \<and>
        sent (snd res) = sent w @ [cmd, ScriptLoad CounterScript] \<and>
        store (snd res) = store w)
   \<and> (event_at (net w) 0 \<noteq> Down \<and> script_missing CounterScript w \<and>
       event_at (net w) 1 \<noteq> Down \<and> event_at (net w) 2 = Down \<longrightarrow>
        fst res = Inl ConnectionError \<and>
        sent (snd res) = sent w @ [cmd, ScriptLoad CounterScript, cmd] \<and>
        store (snd res) = store w)
   \<and> (event_at (net w) 0 \<noteq> Down \<and> script_missing CounterScript w \<and>
       event_at (net w) 1 \<noteq> Down \<and> event_at (net w) 2 = Flush \<longrightarrow>
        fst res = Inl NoScriptError \<and>
        sent (snd res) = sent w @ [cmd, ScriptLoad CounterScript, cmd] \<and>
        store (snd res) = store w)
   \<and> (event_at (net w) 0 \<noteq> Down \<and> script_missing CounterScript w \<and>
       event_at (net w) 1 \<noteq> Down \<and> event_at (net w) 2 = Ok \<longrightarrow>
        sent (snd res) = sent w @ [cmd, ScriptLoad CounterScript, cmd] \<and>
        (fst res, store (snd res)) = script_result)
   \<and> (event_at (net v) 0 \<noteq> Down \<and> \<not> script_missing RefundScript v \<longrightarrow>
        fst ref = Inr () \<and> sent (snd ref) = sent v @ [rcmd] \<and>
        store (snd ref) = snd (refund_script now (store v) k))
   \<and> ((event_at (net v) 0 = Down \<or> script_missing RefundScript v) \<and>
       event_at (net v) 1 = Down \<longrightarrow>
        fst ref = Inl ConnectionError \<and>
        sent (snd ref) = sent v @ [rcmd, ScriptLoad RefundScript] \<and>
        store (snd ref) = store v)
   \<and> ((event_at (net v) 0 = Down \<or> script_missing RefundScript v) \<and>
       event_at (net v) 1 \<noteq> Down \<and> event_at (net v) 2 = Down \<longrightarrow>
        fst ref = Inl ConnectionError \<and>
        sent (snd ref) = sent v @ [rcmd, ScriptLoad RefundScript, rcmd] \<and>
        store (snd ref) = store v)
   \<and> ((event_at (net v) 0 = Down \<or> script_missing RefundScript v) \<and>
       event_at (net v) 1 \<noteq> Down \<and> event_at (net v) 2 = Flush \<longrightarrow>
        fst ref = Inl NoScriptError \<and>
        sent (snd ref) = sent v @ [rcmd, ScriptLoad RefundScript, rcmd] \<and>
        store (snd ref) = store v)
   \<and> ((event_at (net v) 0 = Down \<or> script_missing RefundScript v) \<and>
       event_at (net v) 1 \<noteq> Down \<and> event_at (net v) 2 = Ok \<longrightarrow>
        fst ref = Inr () \<and>
        sent (snd ref) = sent v @ [rcmd, ScriptLoad RefundScript, rcmd] \<and>
        store (snd ref) = snd (refund_script now (store v) k))
   \<and> (refund_script_sha u = None \<and> event_at (net u) 0 = Down \<longrightarrow>
        fst (refund_key now k u) = Inl ConnectionError \<and>
        sent (snd (refund_key now k u)) = sent u @ [ScriptLoad RefundScript] \<and>
        store (snd (refund_key now k u)) = store u)
   \<and> (refund_script_sha u = None \<and> event_at (net u) 0 \<noteq> Down \<longrightarrow>
        refund_key now k u =
          refund_key now k
            ((snd (script_load RefundScript u))\<lparr>refund_script_sha := Some RefundScript\<rparr>) \<and>
        sent (snd (script_load RefundScript u)) = sent u @ [ScriptLoad RefundScript])"
proof -
  have c1: "event_at (net w) 0 = Down \<longrightarrow>
        fst res = Inl ConnectionError \<and> sent (snd res) = sent w @ [cmd] \<and>
        store (snd res) = store w"
    unfolding res_def cmd_def script_result_def ref_def rcmd_def
    using http_down [OF assms(1,3,2), of now routes] by simp
  have c2: "event_at (net w) 0 \<noteq> Down \<and> \<not> script_missing CounterScript w \<longrightarrow>
        sent (snd res) = sent w @ [cmd] \<and> (fst res, store (snd res)) = script_result"
    unfolding res_def cmd_def script_result_def ref_def rcmd_def
    using http_first_runs_script [OF assms(1,3,2), of now routes] by simp
  have c3: "event_at (net w) 0 \<noteq> Down \<and> script_missing CounterScript w \<and>
       event_at (net w) 1 = Down \<longrightarrow>
        fst res = Inl ConnectionError \<and>
        sent (snd res) = sent w @ [cmd, ScriptLoad CounterScript] \<and>
        store (snd res) = store w"
    unfolding res_def cmd_def script_result_def ref_def rcmd_def
    using http_reload_down [OF assms(1,3,2), of now routes] by simp
  have c4: "event_at (net w) 0 \<noteq> Down \<and> script_missing CounterScript w \<and>
       event_at (net w) 1 \<noteq> Down \<and> event_at (net w) 2 = Down \<longrightarrow>
        fst res = Inl ConnectionError \<and>
        sent (snd res) = sent w @ [cmd, ScriptLoad CounterScript, cmd] \<and>
        store (snd res) = store w"
    unfolding res_def cmd_def script_result_def ref_def rcmd_def
    using http_retry_down [OF assms(1,3,2), of now routes] by simp
  have c5: "event_at (net w) 0 \<noteq> Down \<and> script_missing CounterScript w \<and>
       event_at (net w) 1 \<noteq> Down \<and> event_at (net w) 2 = Flush \<longrightarrow>
        fst res = Inl NoScriptError \<and>
        sent (snd res) = sent w @ [cmd, ScriptLoad CounterScript, cmd] \<and>
        store (snd res) = store w"
    unfolding res_def cmd_def script_result_def ref_def rcmd_def
    using http_retry_not_found [OF assms(1,3,2), of now routes] by simp
  have c6: "event_at (net w) 0 \<noteq> Down \<and> script_missing CounterScript w \<and>
       event_at (net w) 1 \<noteq> Down \<and> event_at (net w) 2 = Ok \<longrightarrow>
        sent (snd res) = sent w @ [cmd, ScriptLoad CounterScript, cmd] \<and>
        (fst res, store (snd res)) = script_result"
    unfolding res_def cmd_def script_result_def ref_def rcmd_def
    using http_retry_runs_script [OF assms(1,3,2), of now routes] by simp
  have c7: "event_at (net v) 0 \<noteq> Down \<and> \<not> script_missing RefundScript v \<longrightarrow>
        fst ref = Inr () \<and> sent (snd ref) = sent v @ [rcmd] \<and>
        store (snd ref) = snd (refund_script now (store v) k)"
    unfolding res_def cmd_def script_result_def ref_def rcmd_def
    using refund_first_runs_script [OF assms(4), of now k] by simp
  have c8: "(event_at (net v) 0 = Down \<or> script_missing RefundScript v) \<and>
       event_at (net v) 1 = Down \<longrightarrow>
        fst ref = Inl ConnectionError \<and>
        sent (snd ref) = sent v @ [rcmd, ScriptLoad RefundScript] \<and>
        store (snd ref) = store v"
    unfolding res_def cmd_def script_result_def ref_def rcmd_def
    using refund_reload_down [OF assms(4), of now k] by simp
  have c9: "(event_at (net v) 0 = Down \<or> script_missing RefundScript v) \<and>
       event_at (net v) 1 \<noteq> Down \<and> event_at (net v) 2 = Down \<longrightarrow>
        fst ref = Inl ConnectionError \<and>
        sent (snd ref) = sent v @ [rcmd, ScriptLoad RefundScript, rcmd] \<and>
        store (snd ref) = store v"
    unfolding res_def cmd_def script_result_def ref_def rcmd_def
    using refund_retry_down [OF assms(4), of now k] by simp
  have c10: "(event_at (net v) 0 = Down \<or> script_missing RefundScript v) \<and>
       event_at (net v) 1 \<noteq> Down \<and> event_at (net v) 2 = Flush \<longrightarrow>
        fst ref = Inl NoScriptError \<and>
        sent (snd ref) = sent v @ [rcmd, ScriptLoad RefundScript, rcmd] \<and>
        store (snd ref) = store v"
    unfolding res_def cmd_def script_result_def ref_def rcmd_def
    using refund_retry_not_found [OF assms(4), of now k] by simp
  have c11: "(event_at (net v) 0 = Down \<or> script_missing RefundScript v) \<and>
       event_at (net v) 1 \<noteq> Down \<and> event_at (net v) 2 = Ok \<longrightarrow>
        fst ref = Inr () \<and>
        sent (snd ref) = sent v @ [rcmd, ScriptLoad RefundScript, rcmd] \<and>
        store (snd ref) = snd (refund_script now (store v) k)"
    unfolding res_def cmd_def script_result_def ref_def rcmd_def
    using refund_retry_runs_script [OF assms(4), of now k] by simp
  have c12: "refund_script_sha u = None \<and> event_at (net u) 0 = Down \<longrightarrow>
        fst (refund_key now k u) = Inl ConnectionError \<and>
        sent (snd (refund_key now k u)) = sent u @ [ScriptLoad RefundScript] \<and>
        store (snd (refund_key now k u)) = store u"
    using refund_unloaded_down [of u now k] by simp
  have c13: "refund_script_sha u = None \<and> event_at (net u) 0 \<noteq> Down \<longrightarrow>
        refund_key now k u =
          refund_key now k
            ((snd (script_load RefundScript u))\<lparr>refund_script_sha := Some RefundScript\<rparr>) \<and>
        sent (snd (script_load RefundScript u)) = sent u @ [ScriptLoad RefundScript]"
    using refund_unloaded_loads [of u now k] by simp
  show ?thesis
    by (intro conjI c1 c2 c3 c4 c5 c6 c7 c8 c9 c10 c11 c12 c13)
qed

theorem C6_reload_and_retry_once_witness:
  "redis cfg_plain \<and> lua_sha w_flushed = Some CounterScript
   \<and> refund_script_sha w_refund_down = Some RefundScript
   \<and> event_at (net w_flushed) 0 = Flush
   \<and> fst (RateLimiter_call demo_hash 0 cfg_plain routes_a lim_user req_a w_flushed) = Inr ()
   \<and> sent (snd (RateLimiter_call demo_hash 0 cfg_plain routes_a lim_user req_a w_flushed)) =
       [EvalSha CounterScript ''fastapi-limiter:user42:0:0'' [2, 5000],
        ScriptLoad CounterScript,
        EvalSha CounterScript ''fastapi-limiter:user42:0:0'' [2, 5000]]
   \<and> event_at (net w_refund_down) 0 = Down
   \<and> fst (refund_key 0 ''k'' w_refund_down) = Inr ()
   \<and> sent (snd (refund_key 0 ''k'' w_refund_down)) =
       [EvalSha RefundScript ''k'' [], ScriptLoad RefundScript, EvalSha RefundScript ''k'' []]"
  using C6_reload_and_retry_once [where cfg = cfg_plain and w = w_flushed and H = demo_hash
      and self = lim_user and req = req_a and v = w_refund_down and u = w0 and now = 0
      and routes = routes_a and k = "''k''"]
  by (simp add: eval_defs event_at_def script_missing_def http_cb_def cfg_plain_def
      routes_a_def lim_user_def req_a_def w0_def w_flushed_def w_refund_down_def
      ident_user_def)

section \<open>The websocket limiter and bypass\<close>

lemma lua_script_admit_count:
  assumes "0 < ms" and "current_count now s k \<le> 0 \<or> current_count now s k + 1 \<le> limit"
  shows "\<exists>s'. lua_script now s k limit ms = Inr (0, s') \<and>
              current_count now s' k = (if 0 < current_count now s k then current_count now s k + 1 else 1)"
proof (cases "0 < current_count now s k")
  case True
  then obtain e where e: "lookup now s k = Some e"
    by (auto simp: current_count_def split: option.splits)
  then have v: "val e = current_count now s k" by (simp add: current_count_def)
  from e have live: "\<not> expired now e" by (auto simp: lookup_def split: option.splits if_splits)
  have "lua_script now s k limit ms = Inr (0, s(k \<mapsto> e\<lparr>val := val e + 1\<rparr>))"
    using lua_script_incr [OF e] True assms v by simp
  moreover have "current_count now (s(k \<mapsto> e\<lparr>val := val e + 1\<rparr>)) k = val e + 1"
    using live by (simp add: current_count_def lookup_def expired_def)
  ultimately show ?thesis using True v by simp
next
  case False
  then show ?thesis using assms
    by (simp add: lua_script_def redis_set_px_def current_count_def lookup_def expired_def)
qed

text \<open>
  Claim C10. The websocket limiter does not look at the bypass configuration: its outcome
  is the same with bypass enabled or disabled and with any credential lists, it always
  sends one \<^verbatim>\<open>evalsha\<close> of the counter script on the websocket scope key, and when that
  command reaches a server holding the script and the count admits the call, the call
  returns normally with the count charged.
\<close>

theorem C10_websocket_never_bypasses:
  assumes "redis cfg" and "lua_sha w = Some CounterScript"
  shows "WebSocketRateLimiter_call now cfg (self\<lparr>enable_bypass := True\<rparr>) ws ck w =
           WebSocketRateLimiter_call now cfg (self\<lparr>enable_bypass := False\<rparr>) ws ck w
       \<and> WebSocketRateLimiter_call now
           (cfg\<lparr>authorized_passwords := pws, query_param_names := qs,
                bearer_token_headers := bs, api_key_headers := ks\<rparr>) self ws ck w =
           WebSocketRateLimiter_call now cfg self ws ck w
       \<and> sent (snd (WebSocketRateLimiter_call now cfg self ws ck w)) =
           sent w @ [EvalSha CounterScript
                       (ws_scope_key (prefix cfg) (ws_ident cfg self ws) ck)
                       [times_n self, milliseconds self]]
       \<and> (event_at (net w) 0 = Ok \<and> List.member (script_cache w) CounterScript \<and>
          0 < milliseconds self \<and>
          (current_count now (store w) (ws_scope_key (prefix cfg) (ws_ident cfg self ws) ck) \<le> 0 \<or>
           current_count now (store w) (ws_scope_key (prefix cfg) (ws_ident cfg self ws) ck) + 1
             \<le> times_n self) \<longrightarrow>
          fst (WebSocketRateLimiter_call now cfg self ws ck w) = Inr () \<and>
          current_count now (store (snd (WebSocketRateLimiter_call now cfg self ws ck w)))
              (ws_scope_key (prefix cfg) (ws_ident cfg self ws) ck) =
            (if 0 < current_count now (store w)
                      (ws_scope_key (prefix cfg) (ws_ident cfg self ws) ck)
             then current_count now (store w)
                      (ws_scope_key (prefix cfg) (ws_ident cfg self ws) ck) + 1
             else 1))"
proof (intro conjI impI)
  show "WebSocketRateLimiter_call now cfg (self\<lparr>enable_bypass := True\<rparr>) ws ck w =
           WebSocketRateLimiter_call now cfg (self\<lparr>enable_bypass := False\<rparr>) ws ck w"
    using assms
    by (cases "identifier_l self"; cases "callback self")
      (simp_all add: WebSocketRateLimiter_call_def RateLimiter_check_def)
  show "WebSocketRateLimiter_call now
           (cfg\<lparr>authorized_passwords := pws, query_param_names := qs,
                bearer_token_headers := bs, api_key_headers := ks\<rparr>) self ws ck w =
           WebSocketRateLimiter_call now cfg self ws ck w"
    using assms
    by (cases "identifier_l self"; cases "callback self")
      (simp_all add: WebSocketRateLimiter_call_def RateLimiter_check_def)
  show "sent (snd (WebSocketRateLimiter_call now cfg self ws ck w)) =
           sent w @ [EvalSha CounterScript
                       (ws_scope_key (prefix cfg) (ws_ident cfg self ws) ck)
                       [times_n self, milliseconds self]]"
    using assms
    by (auto simp add: WebSocketRateLimiter_call_def RateLimiter_check_def evalsha_def
        round_trip_eq Let_def ws_ident_def split: sum.splits prod.splits)
next
  let ?k = "ws_scope_key (prefix cfg) (ws_ident cfg self ws) ck"
  assume a: "event_at (net w) 0 = Ok \<and> List.member (script_cache w) CounterScript \<and>
          0 < milliseconds self \<and>
          (current_count now (store w) ?k \<le> 0 \<or>
           current_count now (store w) ?k + 1 \<le> times_n self)"
  then obtain s' where s': "lua_script now (store w) ?k (times_n self) (milliseconds self) = Inr (0, s')"
    and c: "current_count now s' ?k =
      (if 0 < current_count now (store w) ?k then current_count now (store w) ?k + 1 else 1)"
    using lua_script_admit_count [of "milliseconds self" now "store w" ?k "times_n self"] by blast
  have r: "WebSocketRateLimiter_call now cfg self ws ck w =
      (Inr (), w\<lparr>store := s', sent := sent w @ [EvalSha CounterScript ?k [times_n self, milliseconds self]],
                 net := tl (net w)\<rparr>)"
    using assms a s'
    by (simp add: WebSocketRateLimiter_call_def RateLimiter_check_def evalsha_def
        round_trip_eq Let_def ws_ident_def run_script_def on_result_def)
  show "fst (WebSocketRateLimiter_call now cfg self ws ck w) = Inr ()" by (simp add: r)
  show "current_count now (store (snd (WebSocketRateLimiter_call now cfg self ws ck w))) ?k =
      (if 0 < current_count now (store w) ?k then current_count now (store w) ?k + 1 else 1)"
    using c by (simp add: r)
qed

theorem C10_websocket_never_bypasses_witness:
  "redis cfg_secret \<and> lua_sha w0 = Some CounterScript \<and> enable_bypass lim_ws
   \<and> bypass demo_hash cfg_secret req_ws
   \<and> fst (WebSocketRateLimiter_call 0 cfg_secret lim_ws req_ws ''hello'' w0) = Inr ()
   \<and> sent (snd (WebSocketRateLimiter_call 0 cfg_secret lim_ws req_ws ''hello'' w0)) =
       [EvalSha CounterScript ''fastapi-limiter:ws:1.2.3.4:/ws:hello'' [1, 5000]]
   \<and> current_count 0 (store (snd (WebSocketRateLimiter_call 0 cfg_secret lim_ws req_ws ''hello'' w0)))
        ''fastapi-limiter:ws:1.2.3.4:/ws:hello'' = 1"
  using C10_websocket_never_bypasses [of cfg_secret w0 0 lim_ws req_ws "''hello''" "[]" "[]" "[]" "[]"]
  by (simp add: eval_defs WebSocketRateLimiter_call_def cfg_secret_def w0_def lim_ws_def
      req_ws_def demo_hash_def event_at_def ws_scope_key_def ws_ident_def
      ws_default_callback_def)

section \<open>Bypass on the HTTP path\<close>

text \<open>
  The query-parameter loop and the api-key loop read the value at the configured name; a
  match returns at once, with the world untouched. The bearer loop reads the header named
  by the configured name followed by a space.
\<close>

lemma bypass_query_param:
  assumes "param \<in> set (query_param_names cfg)"
    and "H (get_or_empty (query_params req) param) \<in> set (authorized_passwords cfg)"
  shows "bypass H cfg req"
  using assms by (auto simp: bypass_def matches_password_def list_ex_iff)

lemma bypass_api_key:
  assumes "header \<in> set (api_key_headers cfg)"
    and "H (get_or_empty (headers req) header) \<in> set (authorized_passwords cfg)"
  shows "bypass H cfg req"
  using assms by (auto simp: bypass_def matches_password_def list_ex_iff)

lemma bypass_bearer_spaced_name:
  assumes "header \<in> set (bearer_token_headers cfg)"
    and "H (get_or_empty (headers req) (header @ '' '')) \<in> set (authorized_passwords cfg)"
  shows "bypass H cfg req"
  using assms by (auto simp: bypass_def matches_password_def list_ex_iff)

lemma bypass_returns_without_charge:
  "enable_bypass self \<Longrightarrow> bypass H cfg req \<Longrightarrow>
     RateLimiter_call H now cfg routes self req w = (Inr (), w)"
  by (simp add: RateLimiter_call_def)

lemma no_bypass_without_match:
  assumes "\<forall>p \<in> set (query_param_names cfg).
             H (get_or_empty (query_params req) p) \<notin> set (authorized_passwords cfg)"
    and "\<forall>h \<in> set (bearer_token_headers cfg).
             H (get_or_empty (headers req) (h @ '' '')) \<notin> set (authorized_passwords cfg)"
    and "\<forall>h \<in> set (api_key_headers cfg).
             H (get_or_empty (headers req) h) \<notin> set (authorized_passwords cfg)"
  shows "\<not> bypass H cfg req"
  using assms by (auto simp: bypass_def matches_password_def list_ex_iff)

text \<open>
  Claim C3 at a request that carries the authorized secret in the configured bearer
  header \<^verbatim>\<open>bearer\<close>: for every hash that separates the secret from the empty string, the
  call does not bypass; it runs the counter script and charges the counter.
\<close>

theorem C3_bearer_header_not_read:
  assumes "H ''secret'' \<noteq> H []"
  shows "\<not> bypass H (cfg_bearer H) req_bearer
       \<and> RateLimiter_call H 0 (cfg_bearer H) routes_root lim_bypass req_bearer w0 =
           (Inr (),
            w0\<lparr>store := Map.empty(''fastapi-limiter:1.2.3.4:/:0:0'' \<mapsto>
                            \<lparr>val = 1, expire_at = Some 5000\<rparr>),
               sent := [EvalSha CounterScript ''fastapi-limiter:1.2.3.4:/:0:0'' [2, 5000]]\<rparr>)"
  using assms
  by (simp add: eval_defs cfg_bearer_def req_bearer_def lim_bypass_def routes_root_def w0_def)

theorem C3_bearer_header_not_read_witness:
  "demo_hash ''secret'' \<noteq> demo_hash []
   \<and> \<not> bypass demo_hash (cfg_bearer demo_hash) req_bearer
   \<and> fst (RateLimiter_call demo_hash 0 (cfg_bearer demo_hash) routes_root lim_bypass
        req_bearer w0) = Inr ()
   \<and> sent (snd (RateLimiter_call demo_hash 0 (cfg_bearer demo_hash) routes_root lim_bypass
        req_bearer w0)) = [EvalSha CounterScript ''fastapi-limiter:1.2.3.4:/:0:0'' [2, 5000]]"
  using C3_bearer_header_not_read [of demo_hash]
  by (simp add: demo_hash_def w0_def)

section \<open>Scope keys of the charge path and of the refund path\<close>

text \<open>
  The text of a scope key determines both indices: decimal numerals hold no colon and
  name one number each. On a route whose path is the path of the request, and which is
  the last such route, two limiter objects of the route get different keys.
\<close>

lemma digit_char_cases:
  assumes "d < 10"
  shows "d = 0 \<or> d = 1 \<or> d = 2 \<or> d = 3 \<or> d = 4 \<or> d = 5 \<or> d = 6 \<or> d = 7 \<or> d = 8 \<or> d = (9::nat)"
  using assms by arith

lemma digit_char_not_colon: "d < 10 \<Longrightarrow> digit_char d \<noteq> CHR '':''"
  using digit_char_cases [of d] by (auto simp: digit_char_def)

lemma digit_char_inj: "d < 10 \<Longrightarrow> d' < 10 \<Longrightarrow> digit_char d = digit_char d' \<Longrightarrow> d = d'"
  using digit_char_cases [of d] digit_char_cases [of d']
  by (auto simp: digit_char_def)

lemma str_nat_not_Nil: "str_nat n \<noteq> []"
  by (simp add: str_nat.simps [of n])

lemma str_nat_no_colon: "CHR '':'' \<notin> set (str_nat n)"
proof (induction n rule: str_nat.induct)
  case (1 n)
  show ?case
  proof (cases "n < 10")
    case True
    then have "str_nat n = [digit_char n]" by (simp add: str_nat.simps [of n])
    then show ?thesis using digit_char_not_colon [OF True] by auto
  next
    case False
    then have "CHR '':'' \<notin> set (str_nat (n div 10))" by (rule "1.IH")
    moreover have "digit_char (n mod 10) \<noteq> CHR '':''" by (rule digit_char_not_colon) simp
    moreover have "str_nat n = str_nat (n div 10) @ [digit_char (n mod 10)]"
      using False by (simp add: str_nat.simps [of n])
    ultimately show ?thesis by auto
  qed
qed

lemma str_nat_inj: "str_nat m = str_nat n \<Longrightarrow> m = n"
proof (induction m arbitrary: n rule: str_nat.induct)
  case (1 m)
  show ?case
  proof (cases "m < 10")
    case m: True
    show ?thesis
    proof (cases "n < 10")
      case True
      with m "1.prems" have "digit_char m = digit_char n"
        by (simp add: str_nat.simps [of m] str_nat.simps [of n])
      then show ?thesis using m True by (rule digit_char_inj [rotated 2])
    next
      case False
      with m "1.prems" have "[digit_char m] = str_nat (n div 10) @ [digit_char (n mod 10)]"
        by (simp add: str_nat.simps [of m] str_nat.simps [of n])
      then show ?thesis using str_nat_not_Nil [of "n div 10"] by simp
    qed
  next
    case m: False
    show ?thesis
    proof (cases "n < 10")
      case True
      with m "1.prems" have "str_nat (m div 10) @ [digit_char (m mod 10)] = [digit_char n]"
        by (simp add: str_nat.simps [of m] str_nat.simps [of n])
      then show ?thesis using str_nat_not_Nil [of "m div 10"] by simp
    next
      case False
      with m "1.prems" have e: "str_nat (m div 10) @ [digit_char (m mod 10)] =
          str_nat (n div 10) @ [digit_char (n mod 10)]"
        by (simp add: str_nat.simps [of m] str_nat.simps [of n])
      then have "str_nat (m div 10) = str_nat (n div 10)" by simp
      then have d: "m div 10 = n div 10" using m by (intro "1.IH")
      from e have "digit_char (m mod 10) = digit_char (n mod 10)" by simp
      then have "m mod 10 = n mod 10" by (intro digit_char_inj) simp_all
      with d show ?thesis by (metis div_mult_mod_eq)
    qed
  qed
qed

lemma split_at_first:
  assumes "c \<notin> set a" and "c \<notin> set a'" and "a @ c # b = a' @ c # b'"
  shows "a = a' \<and> b = b'"
  using assms
proof (induction a arbitrary: a')
  case Nil
  then show ?case by (cases a') auto
next
  case (Cons x a)
  then show ?case by (cases a') auto
qed

lemma scope_key_inject:
  "scope_key pre rate_key i j = scope_key pre rate_key i' j' \<longleftrightarrow> i = i' \<and> j = j'"
proof
  assume "scope_key pre rate_key i j = scope_key pre rate_key i' j'"
  then have "str_nat i @ CHR '':'' # str_nat j = str_nat i' @ CHR '':'' # str_nat j'"
    by (simp add: scope_key_def)
  then have "str_nat i = str_nat i' \<and> str_nat j = str_nat j'"
    by (intro split_at_first [of "CHR '':''"]) (simp_all add: str_nat_no_colon)
  then show "i = i' \<and> j = j'" using str_nat_inj by blast
qed simp

lemma find_dependency_bounds:
  "find_dependency self ds j = Some n \<Longrightarrow>
     j \<le> n \<and> n < j + length ds \<and> obj_id (ds ! (n - j)) = obj_id self"
proof (induction ds arbitrary: j)
  case Nil
  then show ?case by simp
next
  case (Cons d ds)
  show ?case
  proof (cases "obj_id self = obj_id d")
    case True
    with Cons.prems show ?thesis by simp
  next
    case False
    with Cons.prems have "find_dependency self ds (Suc j) = Some n" by simp
    then have "Suc j \<le> n \<and> n < Suc j + length ds \<and> obj_id (ds ! (n - Suc j)) = obj_id self"
      by (rule Cons.IH)
    then have b: "Suc j \<le> n" "n < Suc j + length ds"
      and o: "obj_id (ds ! (n - Suc j)) = obj_id self" by simp_all
    from b have "n - j = Suc (n - Suc j)" by arith
    then have "(d # ds) ! (n - j) = ds ! (n - Suc j)" by simp
    then show ?thesis using b o by simp
  qed
qed

lemma find_dependency_distinct:
  assumes "find_dependency a ds 0 = Some ja" and "find_dependency b ds 0 = Some jb"
    and "obj_id a \<noteq> obj_id b"
  shows "ja \<noteq> jb"
  using find_dependency_bounds [OF assms(1)] find_dependency_bounds [OF assms(2)] assms(3)
  by auto

lemma scan_routes_no_match:
  "\<forall>r \<in> set rs. \<not> route_matches req r \<Longrightarrow> scan_routes req self rs i acc = acc"
  by (induction rs arbitrary: i acc) (auto split: prod.splits)

lemma scan_routes_last_match:
  assumes "route_matches req r" and "\<forall>r' \<in> set post. \<not> route_matches req r'"
    and "find_dependency self (dependencies r) 0 = Some j"
  shows "scan_routes req self (pre @ r # post) i acc = (i + length pre, j)"
  using assms
proof (induction pre arbitrary: i acc)
  case Nil
  obtain a b where "acc = (a, b)" by (cases acc)
  then show ?case using Nil by (simp add: scan_routes_no_match)
next
  case (Cons p pre)
  obtain a b where acc: "acc = (a, b)" by (cases acc)
  have "scan_routes req self (pre @ r # post) (Suc i) acc' = (Suc i + length pre, j)" for acc'
    using Cons.prems by (intro Cons.IH)
  then show ?case by (simp add: acc)
qed

lemma literal_route_keys_distinct:
  assumes "route_matches req r" and "\<forall>r' \<in> set post. \<not> route_matches req r'"
    and "find_dependency a (dependencies r) 0 = Some ja"
    and "find_dependency b (dependencies r) 0 = Some jb"
    and "obj_id a \<noteq> obj_id b" and "identifier_l a = identifier_l b"
  shows "charge_key cfg (pre @ r # post) a req \<noteq> charge_key cfg (pre @ r # post) b req"
proof -
  have "ja \<noteq> jb" using assms(3,4,5) by (rule find_dependency_distinct)
  then show ?thesis
    using scan_routes_last_match [OF assms(1,2,3), of pre 0 "(0, 0)"]
      scan_routes_last_match [OF assms(1,2,4), of pre 0 "(0, 0)"] assms(6)
    by (simp add: charge_key_def scope_key_inject)
qed

text \<open>
  A refund that finds no route for the request, or no dependency of class
  \<^verbatim>\<open>RateLimiter\<close> on the route, sends nothing and returns normally.
\<close>

lemma refund_no_route:
  "\<forall>r \<in> set rs. \<not> route_matches req r \<Longrightarrow> refund_routes now cfg req rs i w = (Inr (), w)"
  by (induction rs arbitrary: i) auto

lemma refund_no_limiter:
  "\<forall>d \<in> set ds. class_name d \<noteq> ''RateLimiter'' \<Longrightarrow>
     refund_dependencies now cfg req route_index ds j w = (Inr (), w)"
  by (induction ds arbitrary: j) auto

lemma refund_unresolved_is_noop:
  assumes "\<forall>r \<in> set routes. route_matches req r \<longrightarrow>
             (\<forall>d \<in> set (dependencies r). class_name d \<noteq> ''RateLimiter'')"
  shows "refund_rate_limit_for_request now cfg routes req w = (Inr (), w)"
proof -
  have "refund_routes now cfg req rs i w = (Inr (), w)"
    if "\<forall>r \<in> set rs. route_matches req r \<longrightarrow>
             (\<forall>d \<in> set (dependencies r). class_name d \<noteq> ''RateLimiter'')" for rs i
    using that by (induction rs arbitrary: i) (auto simp: refund_no_limiter)
  then show ?thesis using assms by (simp add: refund_rate_limit_for_request_def)
qed

text \<open>
  Claim C4 at a limiter with its own identifier: the charge goes to the key built from
  the limiter's identifier, the refund runs on the key built from the global identifier,
  and the charged count is still 1 after the refund.
\<close>

theorem C4_refund_ignores_identifier_override:
  "charge_key cfg_plain routes_a lim_user req_a = ''fastapi-limiter:user42:0:0''
   \<and> fst (refund_rate_limit_for_request 1 cfg_plain routes_a req_a
        (snd (RateLimiter_call demo_hash 0 cfg_plain routes_a lim_user req_a w0))) = Inr ()
   \<and> sent (snd (refund_rate_limit_for_request 1 cfg_plain routes_a req_a
        (snd (RateLimiter_call demo_hash 0 cfg_plain routes_a lim_user req_a w0)))) =
       [EvalSha CounterScript ''fastapi-limiter:user42:0:0'' [2, 5000],
        ScriptLoad RefundScript,
        EvalSha RefundScript ''fastapi-limiter:1.2.3.4:/a:0:0'' []]
   \<and> current_count 1 (store (snd (refund_rate_limit_for_request 1 cfg_plain routes_a req_a
        (snd (RateLimiter_call demo_hash 0 cfg_plain routes_a lim_user req_a w0)))))
        ''fastapi-limiter:user42:0:0'' = 1"
  by (simp add: eval_defs cfg_plain_def routes_a_def lim_user_def req_a_def w0_def ident_user_def)

text \<open>
  Claim C9 at a route with a path parameter, guarded by two limiters: the route's path is
  never equal to the path of a request, both limiters fall back to the indices 0 and 0
  and derive one key, and the first call of the second limiter is denied by the count of
  the first.
\<close>

theorem C9_path_parameter_route_shares_key:
  "obj_id lim_burst \<noteq> obj_id lim_sustained
   \<and> charge_key cfg_plain routes_items lim_burst req_item = ''fastapi-limiter:1.2.3.4:/items/5:0:0''
   \<and> charge_key cfg_plain routes_items lim_sustained req_item = ''fastapi-limiter:1.2.3.4:/items/5:0:0''
   \<and> fst (RateLimiter_call demo_hash 0 cfg_plain routes_items lim_burst req_item w0) = Inr ()
   \<and> fst (RateLimiter_call demo_hash 0 cfg_plain routes_items lim_sustained req_item
        (snd (RateLimiter_call demo_hash 0 cfg_plain routes_items lim_burst req_item w0))) =
       Inl (TooManyRequests 5)"
  by (simp add: eval_defs cfg_plain_def routes_items_def lim_burst_def lim_sustained_def
      req_item_def w0_def)

end
